theory Spec2Isabelle
  imports Main
begin

section \<open>Worker transactions: data model\<close>

text \<open>
  A shallow embedding of \<^verbatim>\<open>src/backend/distributed/transaction/worker_transaction.c\<close>.
  The two file-level globals (\<^verbatim>\<open>workerConnectionList\<close>, \<^verbatim>\<open>isXactCallbackRegistered\<close>)
  are the fields of a state record that every function takes and returns. Everything the file
  calls but does not define (libpq, the connection cache, the worker manager, the remote
  transaction helpers, the transaction-callback registry) is a field of an environment record;
  each such call is appended to a trace kept in the state, and each answer of the environment
  may depend on the whole trace so far. \<^verbatim>\<open>ereport(ERROR, ...)\<close> leaves the function at
  once: functions return an error or a value, together with the state reached.
  Memory management (\<^verbatim>\<open>MemoryContextSwitchTo\<close>, \<^verbatim>\<open>PQclear\<close>) is not modelled.
\<close>

text \<open>\<^verbatim>\<open>WorkerNode\<close>: the two fields the file reads.\<close>

record WorkerNode =
  workerName :: string
  workerPort :: int

text \<open>A \<^verbatim>\<open>PGconn *\<close> is the address of a connection object; NULL is \<open>None\<close>.\<close>

type_synonym PGconn = nat

text \<open>libpq's \<^verbatim>\<open>ExecStatusType\<close>.\<close>

datatype ExecStatusType =
    PGRES_EMPTY_QUERY
  | PGRES_COMMAND_OK
  | PGRES_TUPLES_OK
  | PGRES_COPY_OUT
  | PGRES_COPY_IN
  | PGRES_BAD_RESPONSE
  | PGRES_NONFATAL_ERROR
  | PGRES_FATAL_ERROR
  | PGRES_COPY_BOTH
  | PGRES_SINGLE_TUPLE

text \<open>A \<^verbatim>\<open>PGresult *\<close>: NULL is \<open>None\<close>, otherwise the status the result carries.\<close>

type_synonym PGresult = "ExecStatusType option"

text \<open>libpq: \<^verbatim>\<open>PQresultStatus(NULL)\<close> is \<^verbatim>\<open>PGRES_FATAL_ERROR\<close>.\<close>

fun PQresultStatus :: "PGresult \<Rightarrow> ExecStatusType" where
  "PQresultStatus None = PGRES_FATAL_ERROR"
| "PQresultStatus (Some st) = st"

text \<open>
  Modelled from the spec: the enum \<^verbatim>\<open>TransactionState\<close> is declared in
  \<^verbatim>\<open>distributed/multi_transaction.h\<close>, which is not among the sources; the file only
  names \<^verbatim>\<open>TRANSACTION_STATE_OPEN\<close>. The spec lists UNOPENED, OPEN, PREPARED, COMMITTED,
  ABORTED, FAILED.
\<close>

datatype TransactionState =
    TRANSACTION_STATE_UNOPENED
  | TRANSACTION_STATE_OPEN
  | TRANSACTION_STATE_PREPARED
  | TRANSACTION_STATE_COMMITTED
  | TRANSACTION_STATE_ABORTED
  | TRANSACTION_STATE_FAILED

text \<open>\<^verbatim>\<open>TransactionConnection\<close>: the three fields the file writes after \<^verbatim>\<open>palloc0\<close>.\<close>

record TransactionConnection =
  connectionId :: int
  transactionState :: TransactionState
  connection :: PGconn

text \<open>PostgreSQL's \<^verbatim>\<open>XactEvent\<close>.\<close>

datatype XactEvent =
    XACT_EVENT_COMMIT
  | XACT_EVENT_PARALLEL_COMMIT
  | XACT_EVENT_ABORT
  | XACT_EVENT_PARALLEL_ABORT
  | XACT_EVENT_PREPARE
  | XACT_EVENT_PRE_COMMIT
  | XACT_EVENT_PARALLEL_PRE_COMMIT
  | XACT_EVENT_PRE_PREPARE

text \<open>
  Modelled from the spec: the type of \<^verbatim>\<open>MultiShardCommitProtocol\<close> is declared in
  \<^verbatim>\<open>distributed/multi_transaction.h\<close> (not among the sources); the file only names
  \<^verbatim>\<open>COMMIT_PROTOCOL_2PC\<close>. The spec gives the two modes ONE\_PHASE and TWO\_PHASE.
\<close>

datatype CommitProtocolType = COMMIT_PROTOCOL_1PC | COMMIT_PROTOCOL_2PC

text \<open>
  The errors raised with \<^verbatim>\<open>ereport(ERROR, ...)\<close>, one constructor per message, carrying
  the values substituted into the message. The last one is whatever
  \<^verbatim>\<open>PrepareRemoteTransactions\<close> raises.
\<close>

datatype error =
    could_not_open_connection string int
  | could_not_start_transaction string int
  | failed_to_send_metadata_change string string
  | failed_to_apply_metadata_change string string
  | failed_to_prepare_transaction

text \<open>
  One entry of the trace per call that leaves the file, with the arguments of the call and,
  where the file reads it, what the call returned. For the commit helper the first flag is its
  \<^verbatim>\<open>stopOnFailure\<close> argument; the last flag of the commit and abort helpers is whether every
  remote operation succeeded.
\<close>

datatype event =
    EvGetOrEstablishConnection string int "PGconn option"
  | EvPQexec PGconn string PGresult
  | EvPQsendQuery PGconn string int
  | EvPQgetResult PGconn PGresult
  | EvReportRemoteError PGconn PGresult
  | EvCloseConnections "TransactionConnection list"
  | EvRegisterXactCallback
  | EvPrepareRemoteTransactions "TransactionConnection list"
  | EvCommitRemoteTransactions "TransactionConnection list" bool bool
  | EvAbortRemoteTransactions "TransactionConnection list" bool

text \<open>
  Modelled from the spec: \<^verbatim>\<open>PrepareRemoteTransactions\<close>, \<^verbatim>\<open>CommitRemoteTransactions\<close>
  and \<^verbatim>\<open>AbortRemoteTransactions\<close> are defined in \<^verbatim>\<open>multi_transaction.c\<close>, which is not
  among the sources. The spec: they carry out the wire-level exchange over a handle set and move
  the handles' transaction states; a PREPARE failure is raised as an error and forces the local
  transaction to abort; failures of COMMIT and of ROLLBACK are reported and never escalated.
  So the outcome of the PREPARE helper is the new transaction state of every handle and
  whether it raised; the COMMIT and ROLLBACK helpers always return, and their outcome is
  whether every remote operation succeeded (the handles are dropped right after).
\<close>

datatype helper_outcome =
    HelperReturned "TransactionConnection \<Rightarrow> TransactionState"
  | HelperRaised "TransactionConnection \<Rightarrow> TransactionState"

record env =
  WorkerNodeList :: "event list \<Rightarrow> WorkerNode list"
  GetOrEstablishConnection :: "event list \<Rightarrow> string \<Rightarrow> int \<Rightarrow> PGconn option"
  ConnectionGetOptionValue :: "PGconn \<Rightarrow> string \<Rightarrow> string"
  PQexec :: "event list \<Rightarrow> PGconn \<Rightarrow> string \<Rightarrow> PGresult"
  PQsendQuery :: "event list \<Rightarrow> PGconn \<Rightarrow> string \<Rightarrow> int"
  PQgetResult :: "event list \<Rightarrow> PGconn \<Rightarrow> PGresult"
  MultiShardCommitProtocol :: CommitProtocolType
  PrepareRemoteTransactions :: "event list \<Rightarrow> TransactionConnection list \<Rightarrow> helper_outcome"
  CommitRemoteTransactions :: "event list \<Rightarrow> TransactionConnection list \<Rightarrow> bool \<Rightarrow> bool"
  AbortRemoteTransactions :: "event list \<Rightarrow> TransactionConnection list \<Rightarrow> bool"

text \<open>The globals of the file, and the trace of the calls made so far.\<close>

record state =
  workerConnectionList :: "TransactionConnection list"
  isXactCallbackRegistered :: bool
  trace :: "event list"

definition initial_state :: state where
  "initial_state = \<lparr>workerConnectionList = [], isXactCallbackRegistered = False, trace = []\<rparr>"

section \<open>The functions of the file\<close>

text \<open>The \<^verbatim>\<open>foreach\<close> over the worker list in \<^verbatim>\<open>OpenWorkerTransactions\<close> (lines 166-202).\<close>

fun OpenWorkerTransactions_foreach ::
  "env \<Rightarrow> WorkerNode list \<Rightarrow> TransactionConnection list \<Rightarrow> event list
    \<Rightarrow> (error + TransactionConnection list) \<times> event list" where
  "OpenWorkerTransactions_foreach e [] connectionList tr = (Inr connectionList, tr)"
| "OpenWorkerTransactions_foreach e (workerNode # rest) connectionList tr =
     (let nodeName = workerName workerNode;
          nodePort = workerPort workerNode;
          got = GetOrEstablishConnection e tr nodeName nodePort;
          tr1 = tr @ [EvGetOrEstablishConnection nodeName nodePort got]
      in case got of
           None \<Rightarrow> (Inl (could_not_open_connection nodeName nodePort), tr1)
         | Some conn \<Rightarrow>
             (let result = PQexec e tr1 conn ''BEGIN'';
                  tr2 = tr1 @ [EvPQexec conn ''BEGIN'' result]
              in if PQresultStatus result \<noteq> PGRES_COMMAND_OK
                 then (Inl (could_not_start_transaction nodeName nodePort),
                       tr2 @ [EvReportRemoteError conn result])
                 else OpenWorkerTransactions_foreach e rest
                        (connectionList @
                           [\<lparr>connectionId = 0, transactionState = TRANSACTION_STATE_OPEN,
                             connection = conn\<rparr>])
                        tr2))"

text \<open>\<^verbatim>\<open>OpenWorkerTransactions\<close> (lines 140-215).\<close>

definition OpenWorkerTransactions ::
  "env \<Rightarrow> state \<Rightarrow> (error + TransactionConnection list) \<times> state" where
  "OpenWorkerTransactions e s =
     (let workerList = WorkerNodeList e (trace s);
          workerCount = length workerList;
          workerConnectionCount = length (workerConnectionList s);
          s1 = (if workerCount \<noteq> workerConnectionCount
                then s\<lparr>workerConnectionList := [],
                       trace := trace s @ [EvCloseConnections (workerConnectionList s)]\<rparr>
                else s)
      in if workerConnectionList s1 \<noteq> [] then (Inr (workerConnectionList s1), s1)
         else (case OpenWorkerTransactions_foreach e workerList [] (trace s1) of
                 (Inl err, tr) \<Rightarrow> (Inl err, s1\<lparr>trace := tr\<rparr>)
               | (Inr connectionList, tr) \<Rightarrow>
                   (let s2 = s1\<lparr>trace := tr\<rparr>;
                        s3 = (if \<not> isXactCallbackRegistered s2
                              then s2\<lparr>isXactCallbackRegistered := True,
                                      trace := trace s2 @ [EvRegisterXactCallback]\<rparr>
                              else s2)
                    in (Inr connectionList, s3\<lparr>workerConnectionList := connectionList\<rparr>))))"

text \<open>The \<^verbatim>\<open>foreach\<close> of \<^verbatim>\<open>SendCommandToWorkersInOrder\<close> (lines 51-69).\<close>

fun SendCommandToWorkersInOrder_foreach ::
  "env \<Rightarrow> string \<Rightarrow> TransactionConnection list \<Rightarrow> event list \<Rightarrow> (error + unit) \<times> event list" where
  "SendCommandToWorkersInOrder_foreach e command [] tr = (Inr (), tr)"
| "SendCommandToWorkersInOrder_foreach e command (transactionConnection # rest) tr =
     (let conn = connection transactionConnection;
          result = PQexec e tr conn command;
          tr1 = tr @ [EvPQexec conn command result]
      in if PQresultStatus result \<noteq> PGRES_COMMAND_OK
         then (Inl (failed_to_send_metadata_change
                      (ConnectionGetOptionValue e conn ''host'')
                      (ConnectionGetOptionValue e conn ''port'')),
               tr1 @ [EvReportRemoteError conn result])
         else SendCommandToWorkersInOrder_foreach e command rest tr1)"

text \<open>\<^verbatim>\<open>SendCommandToWorkersInOrder\<close> (lines 44-70).\<close>

definition SendCommandToWorkersInOrder :: "env \<Rightarrow> string \<Rightarrow> state \<Rightarrow> (error + unit) \<times> state" where
  "SendCommandToWorkersInOrder e command s =
     (case OpenWorkerTransactions e s of
        (Inl err, s1) \<Rightarrow> (Inl err, s1)
      | (Inr connectionList, s1) \<Rightarrow>
          (case SendCommandToWorkersInOrder_foreach e command connectionList (trace s1) of
             (r, tr) \<Rightarrow> (r, s1\<lparr>trace := tr\<rparr>)))"

text \<open>The first \<^verbatim>\<open>foreach\<close> of \<^verbatim>\<open>SendCommandToWorkersInParallel\<close> (lines 85-103).\<close>

fun SendCommandToWorkersInParallel_send ::
  "env \<Rightarrow> string \<Rightarrow> TransactionConnection list \<Rightarrow> event list \<Rightarrow> (error + unit) \<times> event list" where
  "SendCommandToWorkersInParallel_send e command [] tr = (Inr (), tr)"
| "SendCommandToWorkersInParallel_send e command (transactionConnection # rest) tr =
     (let conn = connection transactionConnection;
          querySent = PQsendQuery e tr conn command;
          tr1 = tr @ [EvPQsendQuery conn command querySent]
      in if querySent = 0
         then (Inl (failed_to_send_metadata_change
                      (ConnectionGetOptionValue e conn ''host'')
                      (ConnectionGetOptionValue e conn ''port'')),
               tr1 @ [EvReportRemoteError conn None])
         else SendCommandToWorkersInParallel_send e command rest tr1)"

text \<open>The second \<^verbatim>\<open>foreach\<close> of \<^verbatim>\<open>SendCommandToWorkersInParallel\<close> (lines 105-129).\<close>

fun SendCommandToWorkersInParallel_get ::
  "env \<Rightarrow> TransactionConnection list \<Rightarrow> event list \<Rightarrow> (error + unit) \<times> event list" where
  "SendCommandToWorkersInParallel_get e [] tr = (Inr (), tr)"
| "SendCommandToWorkersInParallel_get e (transactionConnection # rest) tr =
     (let conn = connection transactionConnection;
          result = PQgetResult e tr conn;
          tr1 = tr @ [EvPQgetResult conn result]
      in if PQresultStatus result \<noteq> PGRES_COMMAND_OK
         then (Inl (failed_to_apply_metadata_change
                      (ConnectionGetOptionValue e conn ''host'')
                      (ConnectionGetOptionValue e conn ''port'')),
               tr1 @ [EvReportRemoteError conn result])
         else SendCommandToWorkersInParallel_get e rest
                (tr1 @ [EvPQgetResult conn (PQgetResult e tr1 conn)]))"

text \<open>\<^verbatim>\<open>SendCommandToWorkersInParallel\<close> (lines 78-130).\<close>

definition SendCommandToWorkersInParallel :: "env \<Rightarrow> string \<Rightarrow> state \<Rightarrow> (error + unit) \<times> state" where
  "SendCommandToWorkersInParallel e command s =
     (case OpenWorkerTransactions e s of
        (Inl err, s1) \<Rightarrow> (Inl err, s1)
      | (Inr connectionList, s1) \<Rightarrow>
          (case SendCommandToWorkersInParallel_send e command connectionList (trace s1) of
             (Inl err, tr) \<Rightarrow> (Inl err, s1\<lparr>trace := tr\<rparr>)
           | (Inr u, tr) \<Rightarrow>
               (case SendCommandToWorkersInParallel_get e connectionList tr of
                  (r, tr') \<Rightarrow> (r, s1\<lparr>trace := tr'\<rparr>))))"

text \<open>
  The handles are shared by address between the list and the helpers, so what a helper writes
  into a handle's transaction state shows in the list.
\<close>

definition set_states ::
  "(TransactionConnection \<Rightarrow> TransactionState) \<Rightarrow> TransactionConnection list
    \<Rightarrow> TransactionConnection list" where
  "set_states f connectionList = map (\<lambda>tc. tc\<lparr>transactionState := f tc\<rparr>) connectionList"

text \<open>\<^verbatim>\<open>CompleteWorkerTransactions\<close> (lines 222-274).\<close>

definition CompleteWorkerTransactions :: "env \<Rightarrow> XactEvent \<Rightarrow> state \<Rightarrow> (error + unit) \<times> state" where
  "CompleteWorkerTransactions e ev s =
     (if workerConnectionList s = [] then (Inr (), s)
      else if ev = XACT_EVENT_PRE_COMMIT then
        (if MultiShardCommitProtocol e = COMMIT_PROTOCOL_2PC
         then (let tr1 = trace s @ [EvPrepareRemoteTransactions (workerConnectionList s)]
               in case PrepareRemoteTransactions e (trace s) (workerConnectionList s) of
                    HelperRaised f \<Rightarrow>
                      (Inl failed_to_prepare_transaction,
                       s\<lparr>workerConnectionList := set_states f (workerConnectionList s),
                         trace := tr1\<rparr>)
                  | HelperReturned f \<Rightarrow>
                      (Inr (),
                       s\<lparr>workerConnectionList := set_states f (workerConnectionList s),
                         trace := tr1\<rparr>))
         else (Inr (), s))
      else if ev = XACT_EVENT_COMMIT then
        (Inr (),
         s\<lparr>workerConnectionList := [],
           trace := trace s @
             [EvCommitRemoteTransactions (workerConnectionList s) False
                (CommitRemoteTransactions e (trace s) (workerConnectionList s) False)]\<rparr>)
      else if ev = XACT_EVENT_ABORT then
        (Inr (),
         s\<lparr>workerConnectionList := [],
           trace := trace s @
             [EvAbortRemoteTransactions (workerConnectionList s)
                (AbortRemoteTransactions e (trace s) (workerConnectionList s))]\<rparr>)
      else (Inr (), s))"

section \<open>Histories of calls into the file\<close>

text \<open>
  The backend enters the file through the two public functions and, at transaction events,
  through the callback. A history is any sequence of such entries; an entry that raises leaves
  the state it reached, and the backend goes on with the next entry.
\<close>

datatype call =
    InOrder string
  | InParallel string
  | XactCallback XactEvent

fun do_call :: "env \<Rightarrow> call \<Rightarrow> state \<Rightarrow> state" where
  "do_call e (InOrder command) s = snd (SendCommandToWorkersInOrder e command s)"
| "do_call e (InParallel command) s = snd (SendCommandToWorkersInParallel e command s)"
| "do_call e (XactCallback ev) s = snd (CompleteWorkerTransactions e ev s)"

fun run :: "env \<Rightarrow> call list \<Rightarrow> state \<Rightarrow> state" where
  "run e [] s = s"
| "run e (c # cs) s = run e cs (do_call e c s)"

section \<open>Reading a trace\<close>

text \<open>The commands executed synchronously, with the connection each went to.\<close>

fun executed_by :: "event \<Rightarrow> (PGconn \<times> string) list" where
  "executed_by (EvPQexec conn command result) = [(conn, command)]"
| "executed_by _ = []"

definition executed :: "event list \<Rightarrow> (PGconn \<times> string) list" where
  "executed tr = concat (map executed_by tr)"

text \<open>The commands submitted without waiting, with the connection each went to.\<close>

fun submitted_by :: "event \<Rightarrow> (PGconn \<times> string) list" where
  "submitted_by (EvPQsendQuery conn command querySent) = [(conn, command)]"
| "submitted_by _ = []"

definition submitted :: "event list \<Rightarrow> (PGconn \<times> string) list" where
  "submitted tr = concat (map submitted_by tr)"

text \<open>The connections a result was drained from.\<close>

fun drained_by :: "event \<Rightarrow> PGconn list" where
  "drained_by (EvPQgetResult conn result) = [conn]"
| "drained_by _ = []"

definition drained :: "event list \<Rightarrow> PGconn list" where
  "drained tr = concat (map drained_by tr)"

text \<open>The handle lists given to the prepare helper.\<close>

fun prepared_by :: "event \<Rightarrow> TransactionConnection list list" where
  "prepared_by (EvPrepareRemoteTransactions connectionList) = [connectionList]"
| "prepared_by _ = []"

definition prepared :: "event list \<Rightarrow> TransactionConnection list list" where
  "prepared tr = concat (map prepared_by tr)"

text \<open>How many times the callback was registered.\<close>

definition registrations :: "event list \<Rightarrow> nat" where
  "registrations tr = count_list tr EvRegisterXactCallback"

text \<open>The trace of a command that succeeds on a handle.\<close>

definition exec_ok :: "string \<Rightarrow> TransactionConnection \<Rightarrow> event" where
  "exec_ok command tc = EvPQexec (connection tc) command (Some PGRES_COMMAND_OK)"

text \<open>The trace of opening a handle on a worker: the connection is obtained, BEGIN succeeds.\<close>

definition opened :: "WorkerNode \<times> TransactionConnection \<Rightarrow> event list" where
  "opened p =
     [EvGetOrEstablishConnection (workerName (fst p)) (workerPort (fst p))
        (Some (connection (snd p))),
      EvPQexec (connection (snd p)) ''BEGIN'' (Some PGRES_COMMAND_OK)]"

text \<open>A handle as \<^verbatim>\<open>OpenWorkerTransactions\<close> creates it.\<close>

definition fresh_handle :: "TransactionConnection \<Rightarrow> bool" where
  "fresh_handle tc \<longleftrightarrow> connectionId tc = 0 \<and> transactionState tc = TRANSACTION_STATE_OPEN"

text \<open>The drain phase takes two results from a handle: the command's, and the trailing NULL.\<close>

definition twice :: "TransactionConnection \<Rightarrow> PGconn list" where
  "twice tc = [connection tc, connection tc]"

text \<open>The node a connection goes to, as the error messages name it.\<close>

definition node_of :: "env \<Rightarrow> TransactionConnection \<Rightarrow> string \<times> string" where
  "node_of e tc =
     (ConnectionGetOptionValue e (connection tc) ''host'',
      ConnectionGetOptionValue e (connection tc) ''port'')"

text \<open>
  The trace of a submit phase that succeeds on the handles: one submission of the command per
  handle, in the order of the list, each answered with a value other than 0.
\<close>

fun submits :: "string \<Rightarrow> event list \<Rightarrow> TransactionConnection list \<Rightarrow> bool" where
  "submits command [] [] = True"
| "submits command (EvPQsendQuery conn q querySent # evs) (tc # cl) =
     (conn = connection tc \<and> q = command \<and> querySent \<noteq> 0 \<and> submits command evs cl)"
| "submits command _ _ = False"

text \<open>
  The trace of a drain phase that succeeds on the handles: for each handle, in the order of
  the list, a result that is a success and then one more result.
\<close>

fun drains :: "event list \<Rightarrow> TransactionConnection list \<Rightarrow> bool" where
  "drains [] [] = True"
| "drains (EvPQgetResult conn result # EvPQgetResult conn' result' # evs) (tc # cl) =
     (conn = connection tc \<and> result = Some PGRES_COMMAND_OK \<and> conn' = connection tc \<and>
      drains evs cl)"
| "drains _ _ = False"

text \<open>
  An event carries the answer the environment gave to that call, after the trace \<open>tr\<close>; and
  a sequence of events does so one after the other.
\<close>

fun told :: "env \<Rightarrow> event list \<Rightarrow> event \<Rightarrow> bool" where
  "told e tr (EvGetOrEstablishConnection nodeName nodePort got) =
     (got = GetOrEstablishConnection e tr nodeName nodePort)"
| "told e tr (EvPQexec conn command result) = (result = PQexec e tr conn command)"
| "told e tr (EvPQsendQuery conn command querySent) = (querySent = PQsendQuery e tr conn command)"
| "told e tr (EvPQgetResult conn result) = (result = PQgetResult e tr conn)"
| "told e tr _ = True"

fun answered :: "env \<Rightarrow> event list \<Rightarrow> event list \<Rightarrow> bool" where
  "answered e tr [] = True"
| "answered e tr (ev # evs) = (told e tr ev \<and> answered e (tr @ [ev]) evs)"

text \<open>The events of the wire: obtaining a connection, libpq calls, error reports.\<close>

fun wire_event :: "event \<Rightarrow> bool" where
  "wire_event (EvGetOrEstablishConnection nodeName nodePort got) = True"
| "wire_event (EvPQexec conn command result) = True"
| "wire_event (EvPQsendQuery conn command querySent) = True"
| "wire_event (EvPQgetResult conn result) = True"
| "wire_event (EvReportRemoteError conn result) = True"
| "wire_event _ = False"

text \<open>
  The callback is registered as many times as the flag says, and a registry that holds
  handles was populated, which registered the callback.
\<close>

definition callback_registered_once :: "state \<Rightarrow> bool" where
  "callback_registered_once s \<longleftrightarrow>
     registrations (trace s) = (if isXactCallbackRegistered s then 1 else 0) \<and>
     (workerConnectionList s \<noteq> [] \<longrightarrow> isXactCallbackRegistered s)"

section \<open>Concrete clusters\<close>

definition worker :: "int \<Rightarrow> WorkerNode" where
  "worker p = \<lparr>workerName = ''localhost'', workerPort = p\<rparr>"

definition handle :: "PGconn \<Rightarrow> TransactionConnection" where
  "handle c = \<lparr>connectionId = 0, transactionState = TRANSACTION_STATE_OPEN, connection = c\<rparr>"

text \<open>
  A healthy cluster of the given workers: the connection to the worker at port \<open>p\<close> has
  address \<open>nat p\<close>, every command succeeds, and a connection gives a result and then NULL.
\<close>

definition cluster :: "int list \<Rightarrow> env" where
  "cluster ports =
     \<lparr>WorkerNodeList = (\<lambda>tr. map worker ports),
      GetOrEstablishConnection = (\<lambda>tr name port. Some (nat port)),
      ConnectionGetOptionValue =
        (\<lambda>conn opt. if opt = ''host'' then ''localhost''
                     else if conn = 5432 then ''5432''
                     else if conn = 5433 then ''5433'' else ''5434''),
      PQexec = (\<lambda>tr conn command. Some PGRES_COMMAND_OK),
      PQsendQuery = (\<lambda>tr conn command. 1),
      PQgetResult = (\<lambda>tr conn. if even (count_list (drained tr) conn)
                                 then Some PGRES_COMMAND_OK else None),
      MultiShardCommitProtocol = COMMIT_PROTOCOL_1PC,
      PrepareRemoteTransactions = (\<lambda>tr connectionList. HelperReturned (\<lambda>tc. TRANSACTION_STATE_PREPARED)),
      CommitRemoteTransactions = (\<lambda>tr connectionList stopOnFailure. True),
      AbortRemoteTransactions = (\<lambda>tr connectionList. True)\<rparr>"

text \<open>The same cluster, where one command fails on one connection.\<close>

definition cluster_exec_fails :: "int list \<Rightarrow> PGconn \<Rightarrow> string \<Rightarrow> env" where
  "cluster_exec_fails ports bad_conn bad_command =
     (cluster ports)
       \<lparr>PQexec := (\<lambda>tr conn command.
                    if conn = bad_conn \<and> command = bad_command
                    then Some PGRES_FATAL_ERROR else Some PGRES_COMMAND_OK)\<rparr>"

text \<open>The same cluster, where submitting without waiting fails on one connection.\<close>

definition cluster_send_fails :: "int list \<Rightarrow> PGconn \<Rightarrow> env" where
  "cluster_send_fails ports bad_conn =
     (cluster ports)
       \<lparr>PQsendQuery := (\<lambda>tr conn command. if conn = bad_conn then 0 else 1)\<rparr>"


text \<open>The same clusters under the two-phase protocol.\<close>

definition two_phase :: "env \<Rightarrow> env" where
  "two_phase e = e\<lparr>MultiShardCommitProtocol := COMMIT_PROTOCOL_2PC\<rparr>"

section \<open>Ordered dispatch\<close>

lemma PQresultStatus_ok: "PQresultStatus r = PGRES_COMMAND_OK \<longleftrightarrow> r = Some PGRES_COMMAND_OK"
  by (cases r) auto

lemma InOrder_foreach_shape:
  "SendCommandToWorkersInOrder_foreach e command cl tr = (Inr (), tr @ map (exec_ok command) cl)
   \<or> (\<exists>pre tc post res. cl = pre @ tc # post \<and> PQresultStatus res \<noteq> PGRES_COMMAND_OK \<and>
        SendCommandToWorkersInOrder_foreach e command cl tr =
          (Inl (failed_to_send_metadata_change (fst (node_of e tc)) (snd (node_of e tc))),
           tr @ map (exec_ok command) pre @
             [EvPQexec (connection tc) command res, EvReportRemoteError (connection tc) res]))"
proof (induction cl arbitrary: tr)
  case Nil
  show ?case by simp
next
  case (Cons x rest)
  let ?res = "PQexec e tr (connection x) command"
  show ?case
  proof (cases "PQresultStatus ?res = PGRES_COMMAND_OK")
    case False
    have "x # rest = [] @ x # rest" by simp
    moreover have "SendCommandToWorkersInOrder_foreach e command (x # rest) tr =
          (Inl (failed_to_send_metadata_change (fst (node_of e x)) (snd (node_of e x))),
           tr @ map (exec_ok command) [] @
             [EvPQexec (connection x) command ?res, EvReportRemoteError (connection x) ?res])"
      using False by (simp add: node_of_def Let_def)
    ultimately show ?thesis using False by blast
  next
    case True
    then have ok: "?res = Some PGRES_COMMAND_OK" by (simp add: PQresultStatus_ok)
    let ?tr1 = "tr @ [exec_ok command x]"
    have step: "SendCommandToWorkersInOrder_foreach e command (x # rest) tr =
                SendCommandToWorkersInOrder_foreach e command rest ?tr1"
      using ok by (simp add: exec_ok_def Let_def)
    from Cons.IH [of ?tr1] show ?thesis
    proof
      assume "SendCommandToWorkersInOrder_foreach e command rest ?tr1 =
                (Inr (), ?tr1 @ map (exec_ok command) rest)"
      then show ?thesis using step by simp
    next
      assume "\<exists>pre tc post res. rest = pre @ tc # post \<and> PQresultStatus res \<noteq> PGRES_COMMAND_OK \<and>
        SendCommandToWorkersInOrder_foreach e command rest ?tr1 =
          (Inl (failed_to_send_metadata_change (fst (node_of e tc)) (snd (node_of e tc))),
           ?tr1 @ map (exec_ok command) pre @
             [EvPQexec (connection tc) command res, EvReportRemoteError (connection tc) res])"
      then obtain pre tc post res where
        d: "rest = pre @ tc # post" and f: "PQresultStatus res \<noteq> PGRES_COMMAND_OK" and
        r: "SendCommandToWorkersInOrder_foreach e command rest ?tr1 =
          (Inl (failed_to_send_metadata_change (fst (node_of e tc)) (snd (node_of e tc))),
           ?tr1 @ map (exec_ok command) pre @
             [EvPQexec (connection tc) command res, EvReportRemoteError (connection tc) res])"
        by blast
      have "x # rest = (x # pre) @ tc # post" using d by simp
      moreover have "SendCommandToWorkersInOrder_foreach e command (x # rest) tr =
          (Inl (failed_to_send_metadata_change (fst (node_of e tc)) (snd (node_of e tc))),
           tr @ map (exec_ok command) (x # pre) @
             [EvPQexec (connection tc) command res, EvReportRemoteError (connection tc) res])"
        using step r by simp
      ultimately show ?thesis using f by blast
    qed
  qed
qed

text \<open>
  C1. \<^verbatim>\<open>SendCommandToWorkersInOrder\<close>, once the handles \<open>cl\<close> are acquired, executes the
  command on the handles in the order of the list. Either every result is a success, and the
  call returns after one execution per handle; or the list splits at the first handle \<open>tc\<close>
  whose result \<open>res\<close> is not a success: the handles before it got the command with success,
  the remote error is reported, the call raises an error that names the host and port of
  \<open>tc\<close>'s connection, and no handle after \<open>tc\<close> gets the command. The registry and the
  callback flag are as the acquisition left them.
\<close>

theorem SendCommandToWorkersInOrder_fail_fast:
  assumes "OpenWorkerTransactions e s = (Inr cl, s1)"
  shows "SendCommandToWorkersInOrder e command s =
           (Inr (), s1\<lparr>trace := trace s1 @ map (exec_ok command) cl\<rparr>)
         \<or> (\<exists>pre tc post res. cl = pre @ tc # post \<and> PQresultStatus res \<noteq> PGRES_COMMAND_OK \<and>
               SendCommandToWorkersInOrder e command s =
                 (Inl (failed_to_send_metadata_change (fst (node_of e tc)) (snd (node_of e tc))),
                  s1\<lparr>trace := trace s1 @ map (exec_ok command) pre @
                       [EvPQexec (connection tc) command res,
                        EvReportRemoteError (connection tc) res]\<rparr>))"
proof -
  from InOrder_foreach_shape [of e command cl "trace s1"] show ?thesis
  proof
    assume "SendCommandToWorkersInOrder_foreach e command cl (trace s1) =
              (Inr (), trace s1 @ map (exec_ok command) cl)"
    then show ?thesis using assms by (simp add: SendCommandToWorkersInOrder_def)
  next
    assume "\<exists>pre tc post res. cl = pre @ tc # post \<and> PQresultStatus res \<noteq> PGRES_COMMAND_OK \<and>
        SendCommandToWorkersInOrder_foreach e command cl (trace s1) =
          (Inl (failed_to_send_metadata_change (fst (node_of e tc)) (snd (node_of e tc))),
           trace s1 @ map (exec_ok command) pre @
             [EvPQexec (connection tc) command res, EvReportRemoteError (connection tc) res])"
    then obtain pre tc post res where
      d: "cl = pre @ tc # post" and f: "PQresultStatus res \<noteq> PGRES_COMMAND_OK" and
      r: "SendCommandToWorkersInOrder_foreach e command cl (trace s1) =
          (Inl (failed_to_send_metadata_change (fst (node_of e tc)) (snd (node_of e tc))),
           trace s1 @ map (exec_ok command) pre @
             [EvPQexec (connection tc) command res, EvReportRemoteError (connection tc) res])"
      by blast
    have "SendCommandToWorkersInOrder e command s =
            (Inl (failed_to_send_metadata_change (fst (node_of e tc)) (snd (node_of e tc))),
             s1\<lparr>trace := trace s1 @ map (exec_ok command) pre @
                  [EvPQexec (connection tc) command res,
                   EvReportRemoteError (connection tc) res]\<rparr>)"
      using assms r by (simp add: SendCommandToWorkersInOrder_def)
    then show ?thesis using d f by blast
  qed
qed

text \<open>
  Three workers, the command fails on the second: the call names the second node, and the
  third node is not among the connections the command went to.
\<close>

theorem SendCommandToWorkersInOrder_fail_fast_witness:
  "fst (OpenWorkerTransactions (cluster_exec_fails [5432, 5433, 5434] 5433 ''CREATE TABLE t'')
          initial_state) = Inr (map handle [5432, 5433, 5434])
   \<and> fst (SendCommandToWorkersInOrder
            (cluster_exec_fails [5432, 5433, 5434] 5433 ''CREATE TABLE t'')
            ''CREATE TABLE t'' initial_state)
       = Inl (failed_to_send_metadata_change ''localhost'' ''5433'')
   \<and> filter (\<lambda>p. snd p = ''CREATE TABLE t'')
         (executed (trace (snd (SendCommandToWorkersInOrder
            (cluster_exec_fails [5432, 5433, 5434] 5433 ''CREATE TABLE t'')
            ''CREATE TABLE t'' initial_state))))
       = [(5432, ''CREATE TABLE t''), (5433, ''CREATE TABLE t'')]"
proof -
  let ?e = "cluster_exec_fails [5432, 5433, 5434] 5433 ''CREATE TABLE t''"
  have h: "OpenWorkerTransactions ?e initial_state =
             (Inr (map handle [5432, 5433, 5434]), snd (OpenWorkerTransactions ?e initial_state))"
    by (simp add: OpenWorkerTransactions_def cluster_exec_fails_def cluster_def
          initial_state_def worker_def handle_def Let_def)
  show ?thesis
    using SendCommandToWorkersInOrder_fail_fast [OF h, of "''CREATE TABLE t''"] h
    by (simp add: SendCommandToWorkersInOrder_def OpenWorkerTransactions_def
          cluster_exec_fails_def cluster_def initial_state_def worker_def handle_def
          executed_def Let_def)
qed

section \<open>Acquiring the handles\<close>

text \<open>
  A population that succeeds appends one new handle per worker, in the order of the worker
  list, and its trace is the opening of each of them in that order.
\<close>

lemma Open_foreach_success:
  "OpenWorkerTransactions_foreach e ws acc tr = (Inr cl, tr') \<Longrightarrow>
   \<exists>new. cl = acc @ new \<and> length new = length ws \<and> list_all fresh_handle new \<and>
         tr' = tr @ concat (map opened (zip ws new))"
proof (induction ws arbitrary: acc tr)
  case Nil
  then show ?case by simp
next
  case (Cons w rest)
  let ?got = "GetOrEstablishConnection e tr (workerName w) (workerPort w)"
  let ?tr1 = "tr @ [EvGetOrEstablishConnection (workerName w) (workerPort w) ?got]"
  from Cons.prems obtain conn where got: "?got = Some conn"
    by (cases ?got) (auto simp: Let_def)
  let ?res = "PQexec e ?tr1 conn ''BEGIN''"
  let ?tr2 = "?tr1 @ [EvPQexec conn ''BEGIN'' ?res]"
  let ?h = "\<lparr>connectionId = 0, transactionState = TRANSACTION_STATE_OPEN, connection = conn\<rparr>"
  from Cons.prems got have ok: "PQresultStatus ?res = PGRES_COMMAND_OK"
    by (auto simp: Let_def split: if_splits)
  then have res: "?res = Some PGRES_COMMAND_OK" by (simp add: PQresultStatus_ok)
  from Cons.prems got ok
  have "OpenWorkerTransactions_foreach e rest (acc @ [?h]) ?tr2 = (Inr cl, tr')"
    by (simp add: Let_def)
  from Cons.IH [OF this] obtain new where
    n: "cl = (acc @ [?h]) @ new" "length new = length rest" "list_all fresh_handle new"
       "tr' = ?tr2 @ concat (map opened (zip rest new))"
    by blast
  have "cl = acc @ (?h # new)" using n(1) by simp
  moreover have "length (?h # new) = length (w # rest)" using n(2) by simp
  moreover have "list_all fresh_handle (?h # new)" using n(3) by (simp add: fresh_handle_def)
  moreover have "tr' = tr @ concat (map opened (zip (w # rest) (?h # new)))"
    using n(4) got res by (simp add: opened_def)
  ultimately show ?case by blast
qed

text \<open>What the trace ends with when opening the handle on worker \<open>w\<close> fails with \<open>err\<close>.\<close>

lemma Open_foreach_failure:
  "OpenWorkerTransactions_foreach e ws acc tr = (Inl err, tr') \<Longrightarrow>
   \<exists>pre w post new fail. ws = pre @ w # post \<and> length new = length pre \<and>
      tr' = tr @ concat (map opened (zip pre new)) @ fail \<and>
      ((err = could_not_open_connection (workerName w) (workerPort w) \<and>
        fail = [EvGetOrEstablishConnection (workerName w) (workerPort w) None])
       \<or> (\<exists>conn res. PQresultStatus res \<noteq> PGRES_COMMAND_OK \<and>
             err = could_not_start_transaction (workerName w) (workerPort w) \<and>
             fail = [EvGetOrEstablishConnection (workerName w) (workerPort w) (Some conn),
                     EvPQexec conn ''BEGIN'' res, EvReportRemoteError conn res]))"
proof (induction ws arbitrary: acc tr)
  case Nil
  then show ?case by simp
next
  case (Cons w rest)
  let ?got = "GetOrEstablishConnection e tr (workerName w) (workerPort w)"
  let ?tr1 = "tr @ [EvGetOrEstablishConnection (workerName w) (workerPort w) ?got]"
  show ?case
  proof (cases ?got)
    case None
    with Cons.prems have
      "err = could_not_open_connection (workerName w) (workerPort w)"
      "tr' = tr @ concat (map opened (zip [] [])) @
               [EvGetOrEstablishConnection (workerName w) (workerPort w) None]"
      by (simp_all add: Let_def)
    moreover have "w # rest = [] @ w # rest" "length ([]::TransactionConnection list) = length ([]::WorkerNode list)" by simp_all
    ultimately show ?thesis by blast
  next
    case (Some conn)
    let ?res = "PQexec e ?tr1 conn ''BEGIN''"
    let ?tr2 = "?tr1 @ [EvPQexec conn ''BEGIN'' ?res]"
    let ?h = "\<lparr>connectionId = 0, transactionState = TRANSACTION_STATE_OPEN, connection = conn\<rparr>"
    show ?thesis
    proof (cases "PQresultStatus ?res = PGRES_COMMAND_OK")
      case False
      with Cons.prems Some have
        "err = could_not_start_transaction (workerName w) (workerPort w)"
        "tr' = tr @ concat (map opened (zip [] [])) @
               [EvGetOrEstablishConnection (workerName w) (workerPort w) (Some conn),
                EvPQexec conn ''BEGIN'' ?res, EvReportRemoteError conn ?res]"
        by (simp_all add: Let_def)
      moreover have "w # rest = [] @ w # rest" "length ([]::TransactionConnection list) = length ([]::WorkerNode list)" by simp_all
      ultimately show ?thesis using False by blast
    next
      case True
      then have res: "?res = Some PGRES_COMMAND_OK" by (simp add: PQresultStatus_ok)
      from Cons.prems Some True
      have "OpenWorkerTransactions_foreach e rest (acc @ [?h]) ?tr2 = (Inl err, tr')"
        by (simp add: Let_def)
      from Cons.IH [OF this] obtain pre w' post new fail where
        n: "rest = pre @ w' # post" "length new = length pre"
           "tr' = ?tr2 @ concat (map opened (zip pre new)) @ fail"
           "(err = could_not_open_connection (workerName w') (workerPort w') \<and>
             fail = [EvGetOrEstablishConnection (workerName w') (workerPort w') None])
            \<or> (\<exists>conn res. PQresultStatus res \<noteq> PGRES_COMMAND_OK \<and>
                 err = could_not_start_transaction (workerName w') (workerPort w') \<and>
                 fail = [EvGetOrEstablishConnection (workerName w') (workerPort w') (Some conn),
                         EvPQexec conn ''BEGIN'' res, EvReportRemoteError conn res])"
        by blast
      have "w # rest = (w # pre) @ w' # post" using n(1) by simp
      moreover have "length (?h # new) = length (w # pre)" using n(2) by simp
      moreover have "tr' = tr @ concat (map opened (zip (w # pre) (?h # new))) @ fail"
        using n(3) Some res by (simp add: opened_def)
      ultimately show ?thesis using n(4) by blast
    qed
  qed
qed

text \<open>The two ways through \<^verbatim>\<open>OpenWorkerTransactions\<close>: the cache is returned, or population runs.\<close>

lemma Open_cache_hit:
  assumes "length (WorkerNodeList e (trace s)) = length (workerConnectionList s)"
    and "workerConnectionList s \<noteq> []"
  shows "OpenWorkerTransactions e s = (Inr (workerConnectionList s), s)"
  using assms by (simp add: OpenWorkerTransactions_def Let_def)

text \<open>The state and trace with which population starts when the cache is not returned.\<close>

lemma Open_populate:
  assumes "length (WorkerNodeList e (trace s)) \<noteq> length (workerConnectionList s)
           \<or> workerConnectionList s = []"
  shows "OpenWorkerTransactions e s =
     (case OpenWorkerTransactions_foreach e (WorkerNodeList e (trace s)) []
             (trace s @ (if length (WorkerNodeList e (trace s)) \<noteq> length (workerConnectionList s)
                         then [EvCloseConnections (workerConnectionList s)] else [])) of
        (Inl err, tr) \<Rightarrow> (Inl err, s\<lparr>workerConnectionList := [], trace := tr\<rparr>)
      | (Inr cl, tr) \<Rightarrow>
          (Inr cl, \<lparr>workerConnectionList = cl, isXactCallbackRegistered = True,
                    trace = tr @ (if isXactCallbackRegistered s then [] else [EvRegisterXactCallback])\<rparr>))"
  using assms
  by (cases "OpenWorkerTransactions_foreach e (WorkerNodeList e (trace s)) []
             (trace s @ (if length (WorkerNodeList e (trace s)) \<noteq> length (workerConnectionList s)
                         then [EvCloseConnections (workerConnectionList s)] else []))")
     (auto simp: OpenWorkerTransactions_def Let_def split: sum.splits)

lemma Open_success_facts:
  assumes "OpenWorkerTransactions e s = (Inr cl, s1)"
  shows "workerConnectionList s1 = cl \<and> length cl = length (WorkerNodeList e (trace s)) \<and>
         (cl = [] \<longrightarrow> isXactCallbackRegistered s1)"
proof (cases "length (WorkerNodeList e (trace s)) = length (workerConnectionList s)
              \<and> workerConnectionList s \<noteq> []")
  case True
  then show ?thesis using assms Open_cache_hit [of e s] by auto
next
  case False
  then have p: "length (WorkerNodeList e (trace s)) \<noteq> length (workerConnectionList s)
           \<or> workerConnectionList s = []" by blast
  let ?tr0 = "trace s @ (if length (WorkerNodeList e (trace s)) \<noteq> length (workerConnectionList s)
                         then [EvCloseConnections (workerConnectionList s)] else [])"
  obtain r tr where f: "OpenWorkerTransactions_foreach e (WorkerNodeList e (trace s)) [] ?tr0 = (r, tr)"
    by (cases "OpenWorkerTransactions_foreach e (WorkerNodeList e (trace s)) [] ?tr0") blast
  from assms Open_populate [OF p] f have r: "r = Inr cl" and s1: "workerConnectionList s1 = cl" "isXactCallbackRegistered s1"
    by (auto split: sum.splits)
  from Open_foreach_success [OF f [unfolded r]] have "length cl = length (WorkerNodeList e (trace s))"
    by auto
  with s1 show ?thesis by simp
qed

lemma Open_failure_facts:
  assumes "OpenWorkerTransactions e s = (Inl err, s1)"
  shows "workerConnectionList s1 = [] \<and> isXactCallbackRegistered s1 = isXactCallbackRegistered s"
proof (cases "length (WorkerNodeList e (trace s)) = length (workerConnectionList s)
              \<and> workerConnectionList s \<noteq> []")
  case True
  then show ?thesis using assms Open_cache_hit [of e s] by auto
next
  case False
  then have p: "length (WorkerNodeList e (trace s)) \<noteq> length (workerConnectionList s)
           \<or> workerConnectionList s = []" by blast
  show ?thesis using assms Open_populate [OF p]
    by (auto split: sum.splits prod.splits)
qed

lemma Open_reuse:
  assumes "workerConnectionList s = cl"
    and "cl = [] \<longrightarrow> isXactCallbackRegistered s"
    and "length (WorkerNodeList e (trace s)) = length cl"
  shows "OpenWorkerTransactions e s = (Inr cl, s)"
proof (cases "cl = []")
  case False
  then show ?thesis using Open_cache_hit [of e s] assms by simp
next
  case True
  then have "WorkerNodeList e (trace s) = []" "workerConnectionList s = []"
    "isXactCallbackRegistered s"
    using assms by simp_all
  then show ?thesis using True by (simp add: OpenWorkerTransactions_def)
qed

text \<open>
  C4. After an acquisition that succeeded with the handles \<open>cl\<close> (state \<open>s1\<close>), take any
  later state \<open>s\<close> of the same local transaction: the registry and the callback flag are as in
  \<open>s1\<close>, the trace may have grown by any commands. If the worker list then has as many
  workers as it had at that acquisition, acquiring again returns the same handle sequence
  \<open>cl\<close> and changes nothing in the state: nothing is added to the trace, so no BEGIN is issued.
  The state reached satisfies the same conditions, so this holds for every acquisition of such
  a sequence.
\<close>

theorem OpenWorkerTransactions_returns_cached_handles:
  assumes "OpenWorkerTransactions e s0 = (Inr cl, s1)"
    and "workerConnectionList s = workerConnectionList s1"
    and "isXactCallbackRegistered s = isXactCallbackRegistered s1"
    and "length (WorkerNodeList e' (trace s)) = length (WorkerNodeList e (trace s0))"
  shows "OpenWorkerTransactions e' s = (Inr cl, s)"
proof -
  from Open_success_facts [OF assms(1)] have
    f: "workerConnectionList s1 = cl" "length cl = length (WorkerNodeList e (trace s0))"
       "cl = [] \<longrightarrow> isXactCallbackRegistered s1"
    by simp_all
  show ?thesis
    using f assms(2,3,4) by (intro Open_reuse) simp_all
qed

text \<open>Two workers: a command is sent in order, then the handles are acquired again.\<close>

theorem OpenWorkerTransactions_returns_cached_handles_witness:
  "fst (OpenWorkerTransactions (cluster [5432, 5433]) initial_state)
     = Inr (map handle [5432, 5433])
   \<and> OpenWorkerTransactions (cluster [5432, 5433])
         (snd (SendCommandToWorkersInOrder (cluster [5432, 5433]) ''CREATE TABLE t'' initial_state))
       = (Inr (map handle [5432, 5433]),
          snd (SendCommandToWorkersInOrder (cluster [5432, 5433]) ''CREATE TABLE t'' initial_state))"
proof -
  let ?e = "cluster [5432, 5433]"
  let ?s1 = "snd (OpenWorkerTransactions ?e initial_state)"
  let ?s = "snd (SendCommandToWorkersInOrder ?e ''CREATE TABLE t'' initial_state)"
  have h0: "fst (OpenWorkerTransactions ?e initial_state) = Inr (map handle [5432, 5433])"
    by (simp add: OpenWorkerTransactions_def cluster_def initial_state_def worker_def
          handle_def Let_def)
  then have h1: "OpenWorkerTransactions ?e initial_state = (Inr (map handle [5432, 5433]), ?s1)"
    by (simp add: prod_eq_iff)
  have h2: "workerConnectionList ?s = workerConnectionList ?s1"
    by (simp add: SendCommandToWorkersInOrder_def OpenWorkerTransactions_def cluster_def
          initial_state_def worker_def Let_def)
  have h3: "isXactCallbackRegistered ?s = isXactCallbackRegistered ?s1"
    by (simp add: SendCommandToWorkersInOrder_def OpenWorkerTransactions_def cluster_def
          initial_state_def worker_def Let_def)
  have h4: "length (WorkerNodeList ?e (trace ?s)) = length (WorkerNodeList ?e (trace initial_state))"
    by (simp add: cluster_def)
  show ?thesis
    using OpenWorkerTransactions_returns_cached_handles [OF h1 h2 h3 h4] h0 by simp
qed

text \<open>
  The trace and the error of an acquisition that fails. The worker list splits at the
  offending worker \<open>w\<close>: every worker before it was opened (its connection obtained, its
  BEGIN a success), and for \<open>w\<close> either no connection was obtained or its BEGIN was not a
  success; the error carries the name and port of \<open>w\<close>. The global list is empty afterwards.
\<close>

lemma OpenWorkerTransactions_failure_shape:
  assumes "OpenWorkerTransactions e s = (Inl err, s1)"
  shows "workerConnectionList s1 = [] \<and>
    (\<exists>pre w post new fail.
       WorkerNodeList e (trace s) = pre @ w # post \<and> length new = length pre \<and>
       trace s1 =
         trace s @ (if length (WorkerNodeList e (trace s)) \<noteq> length (workerConnectionList s)
                    then [EvCloseConnections (workerConnectionList s)] else [])
           @ concat (map opened (zip pre new)) @ fail \<and>
       ((err = could_not_open_connection (workerName w) (workerPort w) \<and>
         fail = [EvGetOrEstablishConnection (workerName w) (workerPort w) None])
        \<or> (\<exists>conn res. PQresultStatus res \<noteq> PGRES_COMMAND_OK \<and>
              err = could_not_start_transaction (workerName w) (workerPort w) \<and>
              fail = [EvGetOrEstablishConnection (workerName w) (workerPort w) (Some conn),
                      EvPQexec conn ''BEGIN'' res, EvReportRemoteError conn res])))"
proof -
  let ?ws = "WorkerNodeList e (trace s)"
  let ?tr0 = "trace s @ (if length ?ws \<noteq> length (workerConnectionList s)
                         then [EvCloseConnections (workerConnectionList s)] else [])"
  have nohit: "length ?ws \<noteq> length (workerConnectionList s) \<or> workerConnectionList s = []"
    using assms Open_cache_hit [of e s] by auto
  obtain r tr where f: "OpenWorkerTransactions_foreach e ?ws [] ?tr0 = (r, tr)"
    by (cases "OpenWorkerTransactions_foreach e ?ws [] ?tr0") blast
  from assms Open_populate [OF nohit] f
  have r: "r = Inl err" and t: "trace s1 = tr" and c: "workerConnectionList s1 = []"
    by (auto split: sum.splits)
  from Open_foreach_failure [OF f [unfolded r]] t c show ?thesis
    by simp
qed

text \<open>
  C5. The claim: when the BEGIN on some worker fails during population, the call fails with an
  error naming that node, and the handles already opened for earlier workers stay registered,
  so that the cleanup at transaction abort reaches them. The header comment of
  \<^verbatim>\<open>OpenWorkerTransactions\<close> says the same of every remote transaction once opened: it is
  committed or aborted when the local transaction commits or aborts.
  The code does the first half only. Two workers, BEGIN fails on the second: the call fails
  naming the second node; the BEGIN on the first worker had succeeded; yet the global list is
  empty, since it is assigned only after the loop; so the callback run for the abort returns
  the state as it found it, and in the whole history (the public call, then the abort event)
  nothing after its BEGIN is sent to the first worker and no helper is called for it: its
  remote transaction stays open.
\<close>

theorem OpenWorkerTransactions_failure_drops_opened_handles:
  "fst (OpenWorkerTransactions (cluster_exec_fails [5432, 5433] 5433 ''BEGIN'') initial_state)
     = Inl (could_not_start_transaction ''localhost'' 5433)
   \<and> EvPQexec 5432 ''BEGIN'' (Some PGRES_COMMAND_OK)
       \<in> set (trace (snd (OpenWorkerTransactions
                             (cluster_exec_fails [5432, 5433] 5433 ''BEGIN'') initial_state)))
   \<and> workerConnectionList
        (snd (OpenWorkerTransactions (cluster_exec_fails [5432, 5433] 5433 ''BEGIN'')
                initial_state)) = []
   \<and> CompleteWorkerTransactions (cluster_exec_fails [5432, 5433] 5433 ''BEGIN'') XACT_EVENT_ABORT
        (snd (OpenWorkerTransactions (cluster_exec_fails [5432, 5433] 5433 ''BEGIN'')
                initial_state))
       = (Inr (), snd (OpenWorkerTransactions (cluster_exec_fails [5432, 5433] 5433 ''BEGIN'')
                         initial_state))
   \<and> trace (run (cluster_exec_fails [5432, 5433] 5433 ''BEGIN'')
               [InOrder ''CREATE TABLE t'', XactCallback XACT_EVENT_ABORT] initial_state)
       = [EvCloseConnections [],
          EvGetOrEstablishConnection ''localhost'' 5432 (Some 5432),
          EvPQexec 5432 ''BEGIN'' (Some PGRES_COMMAND_OK),
          EvGetOrEstablishConnection ''localhost'' 5433 (Some 5433),
          EvPQexec 5433 ''BEGIN'' (Some PGRES_FATAL_ERROR),
          EvReportRemoteError 5433 (Some PGRES_FATAL_ERROR)]"
  by (simp add: SendCommandToWorkersInOrder_def OpenWorkerTransactions_def
        CompleteWorkerTransactions_def cluster_exec_fails_def cluster_def initial_state_def
        worker_def Let_def)

text \<open>
  The sibling path does what this one misses. Same two workers, both BEGINs succeed and the
  command itself fails on the second: the handles are registered, and the abort event hands
  both of them to \<^verbatim>\<open>AbortRemoteTransactions\<close>.
\<close>

lemma command_failure_keeps_handles_registered:
  "fst (SendCommandToWorkersInOrder (cluster_exec_fails [5432, 5433] 5433 ''CREATE TABLE t'')
          ''CREATE TABLE t'' initial_state)
     = Inl (failed_to_send_metadata_change ''localhost'' ''5433'')
   \<and> workerConnectionList
        (snd (SendCommandToWorkersInOrder (cluster_exec_fails [5432, 5433] 5433 ''CREATE TABLE t'')
                ''CREATE TABLE t'' initial_state))
       = [handle 5432, handle 5433]
   \<and> last (trace (run (cluster_exec_fails [5432, 5433] 5433 ''CREATE TABLE t'')
                     [InOrder ''CREATE TABLE t'', XactCallback XACT_EVENT_ABORT] initial_state))
       = EvAbortRemoteTransactions [handle 5432, handle 5433] True"
  by (simp add: SendCommandToWorkersInOrder_def OpenWorkerTransactions_def
        CompleteWorkerTransactions_def cluster_exec_fails_def cluster_def initial_state_def
        worker_def handle_def Let_def)






text \<open>
  C10. When the worker list is empty and no handle is cached, both public functions return
  without error in the same state: the trace has grown by the registration of the callback if
  it was not registered yet, and by nothing else, so no remote command was issued; the
  callback is registered; the registry is empty. In that state the callback does nothing,
  whatever the event and the configuration.
\<close>

theorem no_workers_nothing_sent:
  assumes "WorkerNodeList e (trace s) = []" and "workerConnectionList s = []"
  shows "let s' = s\<lparr>isXactCallbackRegistered := True,
                    trace := trace s @ (if isXactCallbackRegistered s then []
                                        else [EvRegisterXactCallback])\<rparr>
         in SendCommandToWorkersInOrder e command s = (Inr (), s') \<and>
            SendCommandToWorkersInParallel e command s = (Inr (), s') \<and>
            workerConnectionList s' = [] \<and> isXactCallbackRegistered s' \<and>
            (\<forall>e' ev. CompleteWorkerTransactions e' ev s' = (Inr (), s'))"
proof -
  let ?s' = "s\<lparr>isXactCallbackRegistered := True,
                    trace := trace s @ (if isXactCallbackRegistered s then []
                                        else [EvRegisterXactCallback])\<rparr>"
  have o: "OpenWorkerTransactions e s = (Inr [], ?s')"
    using assms by (simp add: OpenWorkerTransactions_def)
  have "SendCommandToWorkersInOrder e command s = (Inr (), ?s')"
    using o by (simp add: SendCommandToWorkersInOrder_def)
  moreover have "SendCommandToWorkersInParallel e command s = (Inr (), ?s')"
    using o by (simp add: SendCommandToWorkersInParallel_def)
  moreover have "CompleteWorkerTransactions e' ev ?s' = (Inr (), ?s')" for e' ev
    using assms by (simp add: CompleteWorkerTransactions_def)
  ultimately show ?thesis using assms by (simp add: Let_def)
qed

theorem no_workers_nothing_sent_witness:
  "WorkerNodeList (cluster []) (trace initial_state) = []
   \<and> workerConnectionList initial_state = []
   \<and> SendCommandToWorkersInOrder (cluster []) ''CREATE TABLE t'' initial_state
       = (Inr (), \<lparr>workerConnectionList = [], isXactCallbackRegistered = True,
                    trace = [EvRegisterXactCallback]\<rparr>)
   \<and> SendCommandToWorkersInParallel (cluster []) ''CREATE TABLE t'' initial_state
       = (Inr (), \<lparr>workerConnectionList = [], isXactCallbackRegistered = True,
                    trace = [EvRegisterXactCallback]\<rparr>)"
proof -
  have h1: "WorkerNodeList (cluster []) (trace initial_state) = []"
    by (simp add: cluster_def)
  have h2: "workerConnectionList initial_state = []"
    by (simp add: initial_state_def)
  show ?thesis
    using no_workers_nothing_sent [OF h1 h2, of "''CREATE TABLE t''"] h1 h2
    by (simp add: initial_state_def Let_def)
qed

section \<open>What the functions add to the trace\<close>

text \<open>The loops add wire events only; wire events are neither registrations nor prepares.\<close>

lemma registrations_wire:
  "list_all wire_event evs \<Longrightarrow> registrations (tr @ evs) = registrations tr"
  by (induction evs arbitrary: tr rule: rev_induct) (auto simp: registrations_def)

lemma prepared_wire:
  "list_all wire_event evs \<Longrightarrow> prepared (tr @ evs) = prepared tr"
proof (induction evs)
  case Nil
  then show ?case by simp
next
  case (Cons ev evs)
  then have "prepared_by ev = []" by (cases ev) simp_all
  with Cons show ?case by (simp add: prepared_def)
qed

lemma Open_foreach_wire:
  "\<exists>evs. snd (OpenWorkerTransactions_foreach e ws acc tr) = tr @ evs \<and> list_all wire_event evs"
proof (induction ws arbitrary: acc tr)
  case Nil
  show ?case by simp
next
  case (Cons w rest)
  let ?got = "GetOrEstablishConnection e tr (workerName w) (workerPort w)"
  let ?ev1 = "EvGetOrEstablishConnection (workerName w) (workerPort w) ?got"
  show ?case
  proof (cases ?got)
    case None
    then have "snd (OpenWorkerTransactions_foreach e (w # rest) acc tr) = tr @ [?ev1]"
      by (simp add: Let_def)
    moreover have "list_all wire_event [?ev1]" by simp
    ultimately show ?thesis by blast
  next
    case (Some conn)
    let ?res = "PQexec e (tr @ [?ev1]) conn ''BEGIN''"
    let ?ev2 = "EvPQexec conn ''BEGIN'' ?res"
    show ?thesis
    proof (cases "PQresultStatus ?res = PGRES_COMMAND_OK")
      case False
      with Some have "snd (OpenWorkerTransactions_foreach e (w # rest) acc tr)
                        = tr @ [?ev1, ?ev2, EvReportRemoteError conn ?res]"
        by (simp add: Let_def)
      moreover have "list_all wire_event [?ev1, ?ev2, EvReportRemoteError conn ?res]" by simp
      ultimately show ?thesis by blast
    next
      case True
      let ?h = "\<lparr>connectionId = 0, transactionState = TRANSACTION_STATE_OPEN, connection = conn\<rparr>"
      from Cons.IH [of "acc @ [?h]" "tr @ [?ev1, ?ev2]"] obtain evs where
        i: "snd (OpenWorkerTransactions_foreach e rest (acc @ [?h]) (tr @ [?ev1, ?ev2]))
              = (tr @ [?ev1, ?ev2]) @ evs" "list_all wire_event evs"
        by blast
      from Some True i(1) have "snd (OpenWorkerTransactions_foreach e (w # rest) acc tr)
                        = tr @ (?ev1 # ?ev2 # evs)"
        by (simp add: Let_def)
      moreover have "list_all wire_event (?ev1 # ?ev2 # evs)" using i(2) by simp
      ultimately show ?thesis by blast
    qed
  qed
qed

lemma InOrder_foreach_wire:
  "\<exists>evs. snd (SendCommandToWorkersInOrder_foreach e command cl tr) = tr @ evs
         \<and> list_all wire_event evs"
proof (induction cl arbitrary: tr)
  case Nil
  show ?case by simp
next
  case (Cons x rest)
  let ?res = "PQexec e tr (connection x) command"
  let ?ev = "EvPQexec (connection x) command ?res"
  show ?case
  proof (cases "PQresultStatus ?res = PGRES_COMMAND_OK")
    case False
    then have "snd (SendCommandToWorkersInOrder_foreach e command (x # rest) tr)
                 = tr @ [?ev, EvReportRemoteError (connection x) ?res]"
      by (simp add: Let_def)
    moreover have "list_all wire_event [?ev, EvReportRemoteError (connection x) ?res]" by simp
    ultimately show ?thesis by blast
  next
    case True
    from Cons.IH [of "tr @ [?ev]"] obtain evs where
      i: "snd (SendCommandToWorkersInOrder_foreach e command rest (tr @ [?ev])) = (tr @ [?ev]) @ evs"
         "list_all wire_event evs"
      by blast
    from True i(1) have "snd (SendCommandToWorkersInOrder_foreach e command (x # rest) tr)
                           = tr @ (?ev # evs)"
      by (simp add: Let_def)
    moreover have "list_all wire_event (?ev # evs)" using i(2) by simp
    ultimately show ?thesis by blast
  qed
qed

lemma InParallel_send_wire:
  "\<exists>evs. snd (SendCommandToWorkersInParallel_send e command cl tr) = tr @ evs
         \<and> list_all wire_event evs"
proof (induction cl arbitrary: tr)
  case Nil
  show ?case by simp
next
  case (Cons x rest)
  let ?sent = "PQsendQuery e tr (connection x) command"
  let ?ev = "EvPQsendQuery (connection x) command ?sent"
  show ?case
  proof (cases "?sent = 0")
    case True
    then have "snd (SendCommandToWorkersInParallel_send e command (x # rest) tr)
                 = tr @ [?ev, EvReportRemoteError (connection x) None]"
      by (simp add: Let_def)
    moreover have "list_all wire_event [?ev, EvReportRemoteError (connection x) None]" by simp
    ultimately show ?thesis by blast
  next
    case False
    from Cons.IH [of "tr @ [?ev]"] obtain evs where
      i: "snd (SendCommandToWorkersInParallel_send e command rest (tr @ [?ev])) = (tr @ [?ev]) @ evs"
         "list_all wire_event evs"
      by blast
    from False i(1) have "snd (SendCommandToWorkersInParallel_send e command (x # rest) tr)
                           = tr @ (?ev # evs)"
      by (simp add: Let_def)
    moreover have "list_all wire_event (?ev # evs)" using i(2) by simp
    ultimately show ?thesis by blast
  qed
qed

lemma InParallel_get_wire:
  "\<exists>evs. snd (SendCommandToWorkersInParallel_get e cl tr) = tr @ evs \<and> list_all wire_event evs"
proof (induction cl arbitrary: tr)
  case Nil
  show ?case by simp
next
  case (Cons x rest)
  let ?res = "PQgetResult e tr (connection x)"
  let ?ev = "EvPQgetResult (connection x) ?res"
  let ?ev2 = "EvPQgetResult (connection x) (PQgetResult e (tr @ [?ev]) (connection x))"
  show ?case
  proof (cases "PQresultStatus ?res = PGRES_COMMAND_OK")
    case False
    then have "snd (SendCommandToWorkersInParallel_get e (x # rest) tr)
                 = tr @ [?ev, EvReportRemoteError (connection x) ?res]"
      by (simp add: Let_def)
    moreover have "list_all wire_event [?ev, EvReportRemoteError (connection x) ?res]" by simp
    ultimately show ?thesis by blast
  next
    case True
    from Cons.IH [of "tr @ [?ev, ?ev2]"] obtain evs where
      i: "snd (SendCommandToWorkersInParallel_get e rest (tr @ [?ev, ?ev2])) = (tr @ [?ev, ?ev2]) @ evs"
         "list_all wire_event evs"
      by blast
    from True i(1) have "snd (SendCommandToWorkersInParallel_get e (x # rest) tr)
                           = tr @ (?ev # ?ev2 # evs)"
      by (simp add: Let_def)
    moreover have "list_all wire_event (?ev # ?ev2 # evs)" using i(2) by simp
    ultimately show ?thesis by blast
  qed
qed

text \<open>What an acquisition adds to the trace, apart from wire events.\<close>

lemma Open_trace:
  assumes "OpenWorkerTransactions e s = (r, s1)"
  shows "\<exists>evs. list_all wire_event evs \<and>
     trace s1 = trace s
        @ (if length (WorkerNodeList e (trace s)) \<noteq> length (workerConnectionList s)
           then [EvCloseConnections (workerConnectionList s)] else [])
        @ evs
        @ (if isXactCallbackRegistered s1 \<and> \<not> isXactCallbackRegistered s
           then [EvRegisterXactCallback] else [])"
proof (cases "length (WorkerNodeList e (trace s)) = length (workerConnectionList s)
              \<and> workerConnectionList s \<noteq> []")
  case True
  with assms Open_cache_hit [of e s] have "s1 = s" by simp
  moreover have "list_all wire_event []" by simp
  ultimately show ?thesis using True by fastforce
next
  case False
  then have p: "length (WorkerNodeList e (trace s)) \<noteq> length (workerConnectionList s)
           \<or> workerConnectionList s = []" by blast
  let ?tr0 = "trace s @ (if length (WorkerNodeList e (trace s)) \<noteq> length (workerConnectionList s)
                         then [EvCloseConnections (workerConnectionList s)] else [])"
  obtain r' tr where f: "OpenWorkerTransactions_foreach e (WorkerNodeList e (trace s)) [] ?tr0 = (r', tr)"
    by (cases "OpenWorkerTransactions_foreach e (WorkerNodeList e (trace s)) [] ?tr0") blast
  from Open_foreach_wire [of e "WorkerNodeList e (trace s)" "[]" ?tr0] f obtain evs where
    w: "tr = ?tr0 @ evs" "list_all wire_event evs" by auto
  show ?thesis
  proof (cases r')
    case (Inl err)
    with assms Open_populate [OF p] f have "trace s1 = tr"
      "isXactCallbackRegistered s1 = isXactCallbackRegistered s" by auto
    then show ?thesis using w by auto
  next
    case (Inr cl)
    with assms Open_populate [OF p] f have
      "trace s1 = tr @ (if isXactCallbackRegistered s then [] else [EvRegisterXactCallback])"
      "isXactCallbackRegistered s1" by auto
    then show ?thesis using w by auto
  qed
qed

lemma Open_registrations:
  assumes "OpenWorkerTransactions e s = (r, s1)"
  shows "registrations (trace s1) =
           registrations (trace s) +
             (if isXactCallbackRegistered s1 \<and> \<not> isXactCallbackRegistered s then 1 else 0)"
proof -
  from Open_trace [OF assms] obtain evs where
    "list_all wire_event evs"
    "trace s1 = trace s
        @ (if length (WorkerNodeList e (trace s)) \<noteq> length (workerConnectionList s)
           then [EvCloseConnections (workerConnectionList s)] else [])
        @ evs
        @ (if isXactCallbackRegistered s1 \<and> \<not> isXactCallbackRegistered s
           then [EvRegisterXactCallback] else [])"
    by blast
  then show ?thesis
    using registrations_wire [of evs "trace s @ [EvCloseConnections (workerConnectionList s)]"]
      registrations_wire [of evs "trace s"]
    by (simp add: registrations_def)
qed

section \<open>The callback registration\<close>

lemma Open_flag_kept:
  assumes "OpenWorkerTransactions e s = (r, s1)" and "isXactCallbackRegistered s"
  shows "isXactCallbackRegistered s1"
proof (cases "length (WorkerNodeList e (trace s)) = length (workerConnectionList s)
              \<and> workerConnectionList s \<noteq> []")
  case True
  with assms Open_cache_hit [of e s] show ?thesis by simp
next
  case False
  then have p: "length (WorkerNodeList e (trace s)) \<noteq> length (workerConnectionList s)
           \<or> workerConnectionList s = []" by blast
  show ?thesis using assms Open_populate [OF p]
    by (auto split: sum.splits prod.splits)
qed

lemma Open_success_registered:
  assumes "OpenWorkerTransactions e s = (Inr cl, s1)"
    and "workerConnectionList s \<noteq> [] \<longrightarrow> isXactCallbackRegistered s"
  shows "isXactCallbackRegistered s1"
proof (cases "length (WorkerNodeList e (trace s)) = length (workerConnectionList s)
              \<and> workerConnectionList s \<noteq> []")
  case True
  with assms Open_cache_hit [of e s] show ?thesis by simp
next
  case False
  then have p: "length (WorkerNodeList e (trace s)) \<noteq> length (workerConnectionList s)
           \<or> workerConnectionList s = []" by blast
  show ?thesis using assms(1) Open_populate [OF p]
    by (auto split: sum.splits prod.splits)
qed

lemma Open_invariant:
  assumes "OpenWorkerTransactions e s = (r, s1)" and "callback_registered_once s"
  shows "callback_registered_once s1"
proof -
  have k: "isXactCallbackRegistered s \<longrightarrow> isXactCallbackRegistered s1"
    using Open_flag_kept [OF assms(1)] by blast
  have n: "registrations (trace s1) = (if isXactCallbackRegistered s1 then 1 else 0)"
    using Open_registrations [OF assms(1)] assms(2) k
    by (auto simp: callback_registered_once_def)
  have "isXactCallbackRegistered s1" if "workerConnectionList s1 \<noteq> []"
  proof (cases r)
    case (Inl err)
    with assms(1) Open_failure_facts [of e s err s1] that show ?thesis by simp
  next
    case (Inr cl)
    with assms Open_success_registered [of e s cl s1] show ?thesis
      by (simp add: callback_registered_once_def)
  qed
  with n show ?thesis by (simp add: callback_registered_once_def)
qed

text \<open>A dispatch is an acquisition followed by wire events only.\<close>

lemma InOrder_after_Open:
  assumes "OpenWorkerTransactions e s = (r, s1)"
  shows "\<exists>evs. list_all wire_event evs \<and>
           snd (SendCommandToWorkersInOrder e command s) = s1\<lparr>trace := trace s1 @ evs\<rparr>"
proof (cases r)
  case (Inl err)
  have "list_all wire_event []" by simp
  moreover have "snd (SendCommandToWorkersInOrder e command s) = s1\<lparr>trace := trace s1 @ []\<rparr>"
    using assms Inl by (simp add: SendCommandToWorkersInOrder_def)
  ultimately show ?thesis by blast
next
  case (Inr cl)
  from InOrder_foreach_wire [of e command cl "trace s1"] obtain evs where
    w: "snd (SendCommandToWorkersInOrder_foreach e command cl (trace s1)) = trace s1 @ evs"
       "list_all wire_event evs" by blast
  have "snd (SendCommandToWorkersInOrder e command s) = s1\<lparr>trace := trace s1 @ evs\<rparr>"
    using assms Inr w(1) by (auto simp: SendCommandToWorkersInOrder_def split: prod.splits)
  then show ?thesis using w(2) by blast
qed

lemma InParallel_after_Open:
  assumes "OpenWorkerTransactions e s = (r, s1)"
  shows "\<exists>evs. list_all wire_event evs \<and>
           snd (SendCommandToWorkersInParallel e command s) = s1\<lparr>trace := trace s1 @ evs\<rparr>"
proof (cases r)
  case (Inl err)
  have "list_all wire_event []" by simp
  moreover have "snd (SendCommandToWorkersInParallel e command s) = s1\<lparr>trace := trace s1 @ []\<rparr>"
    using assms Inl by (simp add: SendCommandToWorkersInParallel_def)
  ultimately show ?thesis by blast
next
  case (Inr cl)
  obtain r1 tr1 where s: "SendCommandToWorkersInParallel_send e command cl (trace s1) = (r1, tr1)"
    by (cases "SendCommandToWorkersInParallel_send e command cl (trace s1)") blast
  from InParallel_send_wire [of e command cl "trace s1"] s obtain evs1 where
    w1: "tr1 = trace s1 @ evs1" "list_all wire_event evs1" by auto
  from InParallel_get_wire [of e cl tr1] obtain evs2 where
    w2: "snd (SendCommandToWorkersInParallel_get e cl tr1) = tr1 @ evs2"
        "list_all wire_event evs2" by blast
  show ?thesis
  proof (cases r1)
    case (Inl err)
    then have "snd (SendCommandToWorkersInParallel e command s) = s1\<lparr>trace := trace s1 @ evs1\<rparr>"
      using assms \<open>r = Inr cl\<close> s w1(1) by (simp add: SendCommandToWorkersInParallel_def)
    then show ?thesis using w1(2) by blast
  next
    case (Inr u)
    have "snd (SendCommandToWorkersInParallel e command s)
            = s1\<lparr>trace := trace s1 @ (evs1 @ evs2)\<rparr>"
      using assms \<open>r = Inr cl\<close> Inr s w1(1) w2(1)
      by (auto simp: SendCommandToWorkersInParallel_def split: prod.splits)
    moreover have "list_all wire_event (evs1 @ evs2)" using w1(2) w2(2) by simp
    ultimately show ?thesis by blast
  qed
qed

lemma InOrder_invariant:
  assumes "callback_registered_once s"
  shows "callback_registered_once (snd (SendCommandToWorkersInOrder e command s))"
proof -
  obtain r s1 where o: "OpenWorkerTransactions e s = (r, s1)"
    by (cases "OpenWorkerTransactions e s") blast
  have i: "callback_registered_once s1" using Open_invariant [OF o assms] .
  from InOrder_after_Open [OF o, of command] obtain evs where "list_all wire_event evs"
    "snd (SendCommandToWorkersInOrder e command s) = s1\<lparr>trace := trace s1 @ evs\<rparr>"
    by blast
  then show ?thesis using i registrations_wire [of evs "trace s1"]
    by (simp add: callback_registered_once_def)
qed

lemma InParallel_invariant:
  assumes "callback_registered_once s"
  shows "callback_registered_once (snd (SendCommandToWorkersInParallel e command s))"
proof -
  obtain r s1 where o: "OpenWorkerTransactions e s = (r, s1)"
    by (cases "OpenWorkerTransactions e s") blast
  have i: "callback_registered_once s1" using Open_invariant [OF o assms] .
  from InParallel_after_Open [OF o, of command] obtain evs where "list_all wire_event evs"
    "snd (SendCommandToWorkersInParallel e command s) = s1\<lparr>trace := trace s1 @ evs\<rparr>"
    by blast
  then show ?thesis using i registrations_wire [of evs "trace s1"]
    by (simp add: callback_registered_once_def)
qed

lemma set_states_Nil: "set_states f cl = [] \<longleftrightarrow> cl = []"
  by (simp add: set_states_def)

lemma Complete_invariant:
  assumes "callback_registered_once s"
  shows "callback_registered_once (snd (CompleteWorkerTransactions e ev s))"
  using assms
  by (auto simp: CompleteWorkerTransactions_def callback_registered_once_def registrations_def
        set_states_Nil Let_def split: helper_outcome.splits)

lemma do_call_invariant:
  "callback_registered_once s \<Longrightarrow> callback_registered_once (do_call e c s)"
  by (cases c) (simp_all add: InOrder_invariant InParallel_invariant Complete_invariant)

lemma run_invariant:
  "callback_registered_once s \<Longrightarrow> callback_registered_once (run e cs s)"
  by (induction cs arbitrary: s) (simp_all add: do_call_invariant)

lemma initial_invariant: "callback_registered_once initial_state"
  by (simp add: callback_registered_once_def initial_state_def registrations_def)

text \<open>
  C9. Let \<open>s\<close> be the state after any history of calls into the file, from the initial
  state of the process. The callback has been registered at most once in \<open>s\<close>. For any
  acquisition made in \<open>s\<close>: it is registered at most once afterwards; if the callback was
  registered in \<open>s\<close>, it still is and no registration is added; if it was not, then no
  registration had been made, a successful acquisition registers it (exactly one registration
  afterwards), and a failed one registers nothing.
\<close>

theorem callback_registered_at_most_once:
  assumes "s = run e calls initial_state"
  shows "registrations (trace s) \<le> 1 \<and>
    (\<forall>e' r s1. OpenWorkerTransactions e' s = (r, s1) \<longrightarrow>
       registrations (trace s1) \<le> 1 \<and>
       (isXactCallbackRegistered s \<longrightarrow>
          isXactCallbackRegistered s1 \<and> registrations (trace s1) = registrations (trace s)) \<and>
       (\<not> isXactCallbackRegistered s \<longrightarrow>
          (case r of
             Inr cl \<Rightarrow> isXactCallbackRegistered s1 \<and> registrations (trace s) = 0 \<and>
                       registrations (trace s1) = 1
           | Inl err \<Rightarrow> \<not> isXactCallbackRegistered s1 \<and> registrations (trace s1) = 0)))"
proof -
  have i: "callback_registered_once s"
    using assms run_invariant [OF initial_invariant] by simp
  then have a: "registrations (trace s) \<le> 1" by (simp add: callback_registered_once_def)
  have "registrations (trace s1) \<le> 1 \<and>
       (isXactCallbackRegistered s \<longrightarrow>
          isXactCallbackRegistered s1 \<and> registrations (trace s1) = registrations (trace s)) \<and>
       (\<not> isXactCallbackRegistered s \<longrightarrow>
          (case r of
             Inr cl \<Rightarrow> isXactCallbackRegistered s1 \<and> registrations (trace s) = 0 \<and>
                       registrations (trace s1) = 1
           | Inl err \<Rightarrow> \<not> isXactCallbackRegistered s1 \<and> registrations (trace s1) = 0))"
    if o: "OpenWorkerTransactions e' s = (r, s1)" for e' r s1
  proof -
    have i1: "callback_registered_once s1" using Open_invariant [OF o i] .
    have k: "isXactCallbackRegistered s \<longrightarrow> isXactCallbackRegistered s1"
      using Open_flag_kept [OF o] by blast
    have c: "case r of Inr cl \<Rightarrow> isXactCallbackRegistered s1
             | Inl err \<Rightarrow> isXactCallbackRegistered s1 = isXactCallbackRegistered s"
    proof (cases r)
      case (Inl err)
      with o Open_failure_facts [of e' s err s1] show ?thesis by simp
    next
      case (Inr cl)
      with o i Open_success_registered [of e' s cl s1] show ?thesis
        by (simp add: callback_registered_once_def)
    qed
    show ?thesis using i i1 k c
      by (auto simp: callback_registered_once_def split: sum.splits)
  qed
  with a show ?thesis by blast
qed

text \<open>
  One worker, two local transactions: a command, the commit, then a second command. The
  acquisition that follows finds the callback registered and adds no registration.
\<close>

theorem callback_registered_at_most_once_witness:
  "registrations
     (trace (run (cluster [5432])
               [InOrder ''CREATE TABLE t'', XactCallback XACT_EVENT_PRE_COMMIT,
                XactCallback XACT_EVENT_COMMIT, InParallel ''CREATE TABLE u'']
               initial_state)) = 1
   \<and> isXactCallbackRegistered
        (snd (OpenWorkerTransactions (cluster [5432])
                (run (cluster [5432])
                   [InOrder ''CREATE TABLE t'', XactCallback XACT_EVENT_PRE_COMMIT,
                    XactCallback XACT_EVENT_COMMIT, InParallel ''CREATE TABLE u'']
                   initial_state)))
   \<and> registrations
        (trace (snd (OpenWorkerTransactions (cluster [5432])
                       (run (cluster [5432])
                          [InOrder ''CREATE TABLE t'', XactCallback XACT_EVENT_PRE_COMMIT,
                           XactCallback XACT_EVENT_COMMIT, InParallel ''CREATE TABLE u'']
                          initial_state)))) = 1"
proof -
  let ?e = "cluster [5432]"
  let ?calls = "[InOrder ''CREATE TABLE t'', XactCallback XACT_EVENT_PRE_COMMIT,
                 XactCallback XACT_EVENT_COMMIT, InParallel ''CREATE TABLE u'']"
  let ?s = "run ?e ?calls initial_state"
  have n: "registrations (trace ?s) = 1"
    by (simp add: SendCommandToWorkersInOrder_def SendCommandToWorkersInParallel_def
          OpenWorkerTransactions_def CompleteWorkerTransactions_def cluster_def
          initial_state_def worker_def drained_def registrations_def Let_def)
  have f: "isXactCallbackRegistered ?s"
    by (simp add: SendCommandToWorkersInOrder_def SendCommandToWorkersInParallel_def
          OpenWorkerTransactions_def CompleteWorkerTransactions_def cluster_def
          initial_state_def worker_def drained_def Let_def)
  have o: "OpenWorkerTransactions ?e ?s =
             (fst (OpenWorkerTransactions ?e ?s), snd (OpenWorkerTransactions ?e ?s))"
    by simp
  note w = callback_registered_at_most_once [OF refl, of ?e ?calls]
  note w1 = w [THEN conjunct2, rule_format, OF o]
  note w2 = w1 [THEN conjunct2, THEN conjunct1, rule_format, OF f]
  show ?thesis using n w2 by simp
qed

section \<open>The transaction callback\<close>

lemma Open_prepared:
  assumes "OpenWorkerTransactions e s = (r, s1)"
  shows "prepared (trace s1) = prepared (trace s)"
proof -
  from Open_trace [OF assms] obtain evs where
    "list_all wire_event evs"
    "trace s1 = trace s
        @ (if length (WorkerNodeList e (trace s)) \<noteq> length (workerConnectionList s)
           then [EvCloseConnections (workerConnectionList s)] else [])
        @ evs
        @ (if isXactCallbackRegistered s1 \<and> \<not> isXactCallbackRegistered s
           then [EvRegisterXactCallback] else [])"
    by blast
  then show ?thesis
    using prepared_wire [of evs "trace s @ [EvCloseConnections (workerConnectionList s)]"]
      prepared_wire [of evs "trace s"]
    by (simp add: prepared_def)
qed

lemma InOrder_prepared:
  "prepared (trace (snd (SendCommandToWorkersInOrder e command s))) = prepared (trace s)"
proof -
  obtain r s1 where o: "OpenWorkerTransactions e s = (r, s1)"
    by (cases "OpenWorkerTransactions e s") blast
  from InOrder_after_Open [OF o, of command] obtain evs where "list_all wire_event evs"
    "snd (SendCommandToWorkersInOrder e command s) = s1\<lparr>trace := trace s1 @ evs\<rparr>"
    by blast
  then show ?thesis using Open_prepared [OF o] prepared_wire [of evs "trace s1"] by simp
qed

lemma InParallel_prepared:
  "prepared (trace (snd (SendCommandToWorkersInParallel e command s))) = prepared (trace s)"
proof -
  obtain r s1 where o: "OpenWorkerTransactions e s = (r, s1)"
    by (cases "OpenWorkerTransactions e s") blast
  from InParallel_after_Open [OF o, of command] obtain evs where "list_all wire_event evs"
    "snd (SendCommandToWorkersInParallel e command s) = s1\<lparr>trace := trace s1 @ evs\<rparr>"
    by blast
  then show ?thesis using Open_prepared [OF o] prepared_wire [of evs "trace s1"] by simp
qed

lemma Complete_prepared:
  "prepared (trace (snd (CompleteWorkerTransactions e ev s))) =
     prepared (trace s) @
       (if workerConnectionList s \<noteq> [] \<and> ev = XACT_EVENT_PRE_COMMIT \<and>
           MultiShardCommitProtocol e = COMMIT_PROTOCOL_2PC
        then [workerConnectionList s] else [])"
  by (auto simp: CompleteWorkerTransactions_def prepared_def Let_def split: helper_outcome.splits)

lemma do_call_prepared:
  "MultiShardCommitProtocol e = COMMIT_PROTOCOL_1PC \<Longrightarrow>
   prepared (trace (do_call e c s)) = prepared (trace s)"
  by (cases c) (simp_all add: InOrder_prepared InParallel_prepared Complete_prepared)

lemma run_prepared:
  "MultiShardCommitProtocol e = COMMIT_PROTOCOL_1PC \<Longrightarrow>
   prepared (trace (run e cs s)) = prepared (trace s)"
  by (induction cs arbitrary: s) (simp_all add: do_call_prepared)

text \<open>
  C2. At \<^verbatim>\<open>XACT_EVENT_PRE_COMMIT\<close> with a non-empty registry, the callback hands the whole
  registry to \<^verbatim>\<open>PrepareRemoteTransactions\<close>, once, if the configured protocol is
  \<^verbatim>\<open>COMMIT_PROTOCOL_2PC\<close>, and makes no such call otherwise. Under
  \<^verbatim>\<open>COMMIT_PROTOCOL_1PC\<close> the pre-commit callback returns the state as it found it, so it
  makes no remote call at all, and no history of calls into the file ever adds a call of
  \<^verbatim>\<open>PrepareRemoteTransactions\<close> to the trace.
\<close>

theorem PreCommit_prepares_iff_two_phase:
  "(workerConnectionList s \<noteq> [] \<longrightarrow>
      prepared (trace (snd (CompleteWorkerTransactions e XACT_EVENT_PRE_COMMIT s))) =
        prepared (trace s) @
          (if MultiShardCommitProtocol e = COMMIT_PROTOCOL_2PC then [workerConnectionList s]
           else []))
   \<and> (MultiShardCommitProtocol e = COMMIT_PROTOCOL_1PC \<longrightarrow>
        CompleteWorkerTransactions e XACT_EVENT_PRE_COMMIT s = (Inr (), s) \<and>
        prepared (trace (run e calls s)) = prepared (trace s))"
proof -
  have a: "prepared (trace (snd (CompleteWorkerTransactions e XACT_EVENT_PRE_COMMIT s))) =
        prepared (trace s) @
          (if MultiShardCommitProtocol e = COMMIT_PROTOCOL_2PC then [workerConnectionList s]
           else [])"
    if "workerConnectionList s \<noteq> []"
    using that by (simp add: Complete_prepared)
  have b: "CompleteWorkerTransactions e XACT_EVENT_PRE_COMMIT s = (Inr (), s)"
    if "MultiShardCommitProtocol e = COMMIT_PROTOCOL_1PC"
    using that by (simp add: CompleteWorkerTransactions_def)
  show ?thesis using a b run_prepared [of e calls s] by blast
qed

text \<open>Two open handles, at pre-commit: under two-phase and under one-phase.\<close>

theorem PreCommit_prepares_iff_two_phase_witness:
  "workerConnectionList (snd (OpenWorkerTransactions (cluster [5432, 5433]) initial_state)) \<noteq> []
   \<and> prepared (trace (snd (CompleteWorkerTransactions (two_phase (cluster [5432, 5433]))
                            XACT_EVENT_PRE_COMMIT
                            (snd (OpenWorkerTransactions (cluster [5432, 5433]) initial_state)))))
       = [map handle [5432, 5433]]
   \<and> MultiShardCommitProtocol (cluster [5432, 5433]) = COMMIT_PROTOCOL_1PC
   \<and> CompleteWorkerTransactions (cluster [5432, 5433]) XACT_EVENT_PRE_COMMIT
        (snd (OpenWorkerTransactions (cluster [5432, 5433]) initial_state))
       = (Inr (), snd (OpenWorkerTransactions (cluster [5432, 5433]) initial_state))
   \<and> prepared (trace (run (cluster [5432, 5433])
                         [XactCallback XACT_EVENT_PRE_COMMIT, XactCallback XACT_EVENT_COMMIT]
                         (snd (OpenWorkerTransactions (cluster [5432, 5433]) initial_state))))
       = []"
proof -
  let ?e = "cluster [5432, 5433]"
  let ?s = "snd (OpenWorkerTransactions ?e initial_state)"
  let ?calls = "[XactCallback XACT_EVENT_PRE_COMMIT, XactCallback XACT_EVENT_COMMIT]"
  have r: "workerConnectionList ?s = map handle [5432, 5433]"
    by (simp add: OpenWorkerTransactions_def cluster_def initial_state_def worker_def
          handle_def Let_def)
  then have h1: "workerConnectionList ?s \<noteq> []" by simp
  have h2: "MultiShardCommitProtocol ?e = COMMIT_PROTOCOL_1PC" by (simp add: cluster_def)
  have p: "prepared (trace ?s) = []"
    by (simp add: OpenWorkerTransactions_def cluster_def initial_state_def worker_def
          prepared_def Let_def)
  note two = PreCommit_prepares_iff_two_phase
    [where e = "two_phase ?e" and s = ?s and calls = ?calls, THEN conjunct1, rule_format, OF h1]
  note one = PreCommit_prepares_iff_two_phase
    [where e = ?e and s = ?s and calls = ?calls, THEN conjunct2, rule_format, OF h2]
  have c1: "prepared (trace (snd (CompleteWorkerTransactions (two_phase ?e)
                                    XACT_EVENT_PRE_COMMIT ?s))) = [map handle [5432, 5433]]"
    using two r p by (simp add: two_phase_def)
  have c2: "CompleteWorkerTransactions ?e XACT_EVENT_PRE_COMMIT ?s = (Inr (), ?s)"
    using one by (rule conjunct1)
  have c3: "prepared (trace (run ?e ?calls ?s)) = []"
    using one [THEN conjunct2] p by (rule trans)
  show ?thesis using h1 c1 h2 c2 c3 by (intro conjI)
qed

lemma executed_opened:
  "length ws = length cl \<Longrightarrow>
   executed (concat (map opened (zip ws cl))) = map (\<lambda>tc. (connection tc, ''BEGIN'')) cl"
  by (induction ws cl rule: list_induct2) (simp_all add: executed_def opened_def)

lemma executed_wireless:
  "executed (EvCloseConnections cl # evs) = executed evs"
  "executed (evs @ [EvRegisterXactCallback]) = executed evs"
  by (simp_all add: executed_def)

lemma Open_from_empty:
  assumes "workerConnectionList s = []" and "OpenWorkerTransactions e s = (Inr cl, s1)"
  shows "list_all fresh_handle cl \<and>
         executed (drop (length (trace s)) (trace s1)) = map (\<lambda>tc. (connection tc, ''BEGIN'')) cl"
proof -
  let ?ws = "WorkerNodeList e (trace s)"
  let ?tr0 = "trace s @ (if length ?ws \<noteq> length (workerConnectionList s)
                         then [EvCloseConnections (workerConnectionList s)] else [])"
  have p: "length ?ws \<noteq> length (workerConnectionList s) \<or> workerConnectionList s = []"
    using assms(1) by simp
  obtain r tr where f: "OpenWorkerTransactions_foreach e ?ws [] ?tr0 = (r, tr)"
    by (cases "OpenWorkerTransactions_foreach e ?ws [] ?tr0") blast
  from assms(2) Open_populate [OF p] f have r: "r = Inr cl"
    and t: "trace s1 = tr @ (if isXactCallbackRegistered s then [] else [EvRegisterXactCallback])"
    by (auto split: sum.splits)
  from Open_foreach_success [OF f [unfolded r]] have
    n: "length cl = length ?ws" "list_all fresh_handle cl"
       "tr = ?tr0 @ concat (map opened (zip ?ws cl))"
    by auto
  have "executed (drop (length (trace s)) (trace s1)) = executed (concat (map opened (zip ?ws cl)))"
    using t n(3) by (simp add: executed_wireless)
  then show ?thesis using n executed_opened [of ?ws cl] by simp
qed

lemma Complete_registry:
  "workerConnectionList (snd (CompleteWorkerTransactions e ev s)) =
     (if ev = XACT_EVENT_COMMIT \<or> ev = XACT_EVENT_ABORT then []
      else if ev = XACT_EVENT_PRE_COMMIT \<and> workerConnectionList s \<noteq> [] \<and>
              MultiShardCommitProtocol e = COMMIT_PROTOCOL_2PC
      then (case PrepareRemoteTransactions e (trace s) (workerConnectionList s) of
              HelperReturned f \<Rightarrow> set_states f (workerConnectionList s)
            | HelperRaised f \<Rightarrow> set_states f (workerConnectionList s))
      else workerConnectionList s)"
  by (auto simp: CompleteWorkerTransactions_def Let_def split: helper_outcome.splits)

text \<open>
  C3. The callback run for \<^verbatim>\<open>XACT_EVENT_COMMIT\<close> or \<^verbatim>\<open>XACT_EVENT_ABORT\<close> returns
  without error and leaves the registry empty, whatever the environment answers, so whether
  the remote commits or rollbacks succeeded or not. The next acquisition that succeeds
  therefore returns new handles only, and issued a BEGIN on each of them, in order. The
  callback run for \<^verbatim>\<open>XACT_EVENT_PRE_COMMIT\<close> keeps the handles of the registry: the same
  connections in the same order.
\<close>

theorem CompleteWorkerTransactions_empties_registry:
  "(ev = XACT_EVENT_COMMIT \<or> ev = XACT_EVENT_ABORT \<longrightarrow>
      fst (CompleteWorkerTransactions e ev s) = Inr () \<and>
      workerConnectionList (snd (CompleteWorkerTransactions e ev s)) = [] \<and>
      (\<forall>e' cl s2.
         OpenWorkerTransactions e' (snd (CompleteWorkerTransactions e ev s)) = (Inr cl, s2) \<longrightarrow>
           list_all fresh_handle cl \<and>
           executed (drop (length (trace (snd (CompleteWorkerTransactions e ev s)))) (trace s2))
             = map (\<lambda>tc. (connection tc, ''BEGIN'')) cl))
   \<and> map connection (workerConnectionList (snd (CompleteWorkerTransactions e XACT_EVENT_PRE_COMMIT s)))
       = map connection (workerConnectionList s)"
proof -
  have a: "fst (CompleteWorkerTransactions e ev s) = Inr ()"
    if "ev = XACT_EVENT_COMMIT \<or> ev = XACT_EVENT_ABORT"
    using that by (auto simp: CompleteWorkerTransactions_def)
  have b: "workerConnectionList (snd (CompleteWorkerTransactions e ev s)) = []"
    if "ev = XACT_EVENT_COMMIT \<or> ev = XACT_EVENT_ABORT"
    using that by (simp add: Complete_registry)
  have c: "map connection (workerConnectionList (snd (CompleteWorkerTransactions e XACT_EVENT_PRE_COMMIT s)))
       = map connection (workerConnectionList s)"
    by (simp add: Complete_registry set_states_def comp_def split: helper_outcome.splits)
  show ?thesis using a b c Open_from_empty by blast
qed

text \<open>Two open handles: commit, then the next acquisition; and pre-commit under two-phase.\<close>

theorem CompleteWorkerTransactions_empties_registry_witness:
  "workerConnectionList (snd (OpenWorkerTransactions (cluster [5432, 5433]) initial_state))
     = map handle [5432, 5433]
   \<and> workerConnectionList
        (snd (CompleteWorkerTransactions (cluster [5432, 5433]) XACT_EVENT_COMMIT
                (snd (OpenWorkerTransactions (cluster [5432, 5433]) initial_state)))) = []
   \<and> executed
        (drop (length (trace (snd (CompleteWorkerTransactions (cluster [5432, 5433])
                                     XACT_EVENT_COMMIT
                                     (snd (OpenWorkerTransactions (cluster [5432, 5433])
                                             initial_state))))))
           (trace (snd (OpenWorkerTransactions (cluster [5432, 5433])
                          (snd (CompleteWorkerTransactions (cluster [5432, 5433])
                                  XACT_EVENT_COMMIT
                                  (snd (OpenWorkerTransactions (cluster [5432, 5433])
                                          initial_state))))))))
       = [(5432, ''BEGIN''), (5433, ''BEGIN'')]
   \<and> map connection
        (workerConnectionList
           (snd (CompleteWorkerTransactions (two_phase (cluster [5432, 5433]))
                   XACT_EVENT_PRE_COMMIT
                   (snd (OpenWorkerTransactions (cluster [5432, 5433]) initial_state)))))
       = [5432, 5433]"
proof -
  let ?e = "cluster [5432, 5433]"
  let ?s = "snd (OpenWorkerTransactions ?e initial_state)"
  let ?s' = "snd (CompleteWorkerTransactions ?e XACT_EVENT_COMMIT ?s)"
  have r: "workerConnectionList ?s = map handle [5432, 5433]"
    by (simp add: OpenWorkerTransactions_def cluster_def initial_state_def worker_def
          handle_def Let_def)
  have h: "XACT_EVENT_COMMIT = XACT_EVENT_COMMIT \<or> XACT_EVENT_COMMIT = XACT_EVENT_ABORT"
    by simp
  have "fst (OpenWorkerTransactions ?e ?s') = Inr (map handle [5432, 5433])"
    by (simp add: OpenWorkerTransactions_def CompleteWorkerTransactions_def cluster_def
          initial_state_def worker_def handle_def Let_def)
  then have o: "OpenWorkerTransactions ?e ?s'
                  = (Inr (map handle [5432, 5433]), snd (OpenWorkerTransactions ?e ?s'))"
    by (simp add: prod_eq_iff)
  note w = CompleteWorkerTransactions_empties_registry
    [where e = ?e and ev = XACT_EVENT_COMMIT and s = ?s]
  note a = w [THEN conjunct1, rule_format, OF h]
  note b = a [THEN conjunct2, THEN conjunct2, rule_format, OF o]
  note c = CompleteWorkerTransactions_empties_registry
    [where e = "two_phase ?e" and ev = XACT_EVENT_COMMIT and s = ?s, THEN conjunct2]
  show ?thesis using a [THEN conjunct2, THEN conjunct1] b [THEN conjunct2] c r
    by (simp add: handle_def)
qed

section \<open>Parallel dispatch\<close>

text \<open>
  The two phases. Each returns the events it added, every one carrying the answer the
  environment gave at that point. The submit phase either submitted to every handle with an
  answer other than 0, or stopped at the first handle for which the environment answered 0.
  The drain phase either took a success and one more result from every handle, or stopped at
  the first handle whose result was not a success.
\<close>

lemma answered_append:
  "answered e tr (a @ b) \<longleftrightarrow> answered e tr a \<and> answered e (tr @ a) b"
  by (induction a arbitrary: tr) simp_all

lemma submits_projections:
  "submits command evs cl \<Longrightarrow>
   submitted evs = map (\<lambda>tc. (connection tc, command)) cl \<and> drained evs = []"
  by (induction command evs cl rule: submits.induct) (simp_all add: submitted_def drained_def)

lemma drains_projections:
  "drains evs cl \<Longrightarrow> drained evs = concat (map twice cl) \<and> submitted evs = []"
  by (induction evs cl rule: drains.induct) (simp_all add: submitted_def drained_def twice_def)

lemma InParallel_send_shape:
  "SendCommandToWorkersInParallel_send e command cl tr = (r, tr') \<Longrightarrow>
   \<exists>sub. tr' = tr @ sub \<and> answered e tr sub \<and>
     ((r = Inr () \<and> submits command sub cl)
      \<or> (\<exists>pre tc post sub0. cl = pre @ tc # post \<and> submits command sub0 pre \<and>
            PQsendQuery e (tr @ sub0) (connection tc) command = 0 \<and>
            sub = sub0 @ [EvPQsendQuery (connection tc) command 0,
                          EvReportRemoteError (connection tc) None] \<and>
            r = Inl (failed_to_send_metadata_change (fst (node_of e tc)) (snd (node_of e tc)))))"
proof (induction cl arbitrary: tr)
  case Nil
  then show ?case by simp
next
  case (Cons x rest)
  let ?sent = "PQsendQuery e tr (connection x) command"
  let ?ev = "EvPQsendQuery (connection x) command ?sent"
  show ?case
  proof (cases "?sent = 0")
    case True
    let ?sub = "[EvPQsendQuery (connection x) command 0, EvReportRemoteError (connection x) None]"
    from Cons.prems True have
      a: "tr' = tr @ ?sub" and
      b: "r = Inl (failed_to_send_metadata_change (fst (node_of e x)) (snd (node_of e x)))"
      by (simp_all add: Let_def node_of_def)
    have c: "answered e tr ?sub" using True by simp
    have "x # rest = [] @ x # rest \<and> submits command [] [] \<and>
          PQsendQuery e (tr @ []) (connection x) command = 0 \<and> ?sub = [] @ ?sub \<and>
          r = Inl (failed_to_send_metadata_change (fst (node_of e x)) (snd (node_of e x)))"
      using b True by simp
    then have "\<exists>pre tc post sub0. x # rest = pre @ tc # post \<and> submits command sub0 pre \<and>
            PQsendQuery e (tr @ sub0) (connection tc) command = 0 \<and>
            ?sub = sub0 @ [EvPQsendQuery (connection tc) command 0,
                          EvReportRemoteError (connection tc) None] \<and>
            r = Inl (failed_to_send_metadata_change (fst (node_of e tc)) (snd (node_of e tc)))"
      by (intro exI [of _ "[]"] exI [of _ x] exI [of _ rest])
    with a c show ?thesis by (intro exI [of _ ?sub] conjI disjI2)
  next
    case False
    with Cons.prems have
      "SendCommandToWorkersInParallel_send e command rest (tr @ [?ev]) = (r, tr')"
      by (simp add: Let_def)
    from Cons.IH [OF this] obtain sub where
      i: "tr' = (tr @ [?ev]) @ sub" "answered e (tr @ [?ev]) sub"
         "(r = Inr () \<and> submits command sub rest)
          \<or> (\<exists>pre tc post sub0. rest = pre @ tc # post \<and> submits command sub0 pre \<and>
            PQsendQuery e ((tr @ [?ev]) @ sub0) (connection tc) command = 0 \<and>
            sub = sub0 @ [EvPQsendQuery (connection tc) command 0,
                          EvReportRemoteError (connection tc) None] \<and>
            r = Inl (failed_to_send_metadata_change (fst (node_of e tc)) (snd (node_of e tc))))"
      by (elim exE conjE)
    have a: "tr' = tr @ (?ev # sub)" using i(1) by simp
    have b: "answered e tr (?ev # sub)" using i(2) by simp
    from i(3) show ?thesis
    proof
      assume "r = Inr () \<and> submits command sub rest"
      then have "r = Inr ()" "submits command (?ev # sub) (x # rest)"
        using False by simp_all
      with a b show ?thesis by (intro exI [of _ "?ev # sub"] conjI disjI1)
    next
      assume "\<exists>pre tc post sub0. rest = pre @ tc # post \<and> submits command sub0 pre \<and>
            PQsendQuery e ((tr @ [?ev]) @ sub0) (connection tc) command = 0 \<and>
            sub = sub0 @ [EvPQsendQuery (connection tc) command 0,
                          EvReportRemoteError (connection tc) None] \<and>
            r = Inl (failed_to_send_metadata_change (fst (node_of e tc)) (snd (node_of e tc)))"
      then obtain pre tc post sub0 where
        d: "rest = pre @ tc # post" "submits command sub0 pre"
           "PQsendQuery e ((tr @ [?ev]) @ sub0) (connection tc) command = 0"
           "sub = sub0 @ [EvPQsendQuery (connection tc) command 0,
                          EvReportRemoteError (connection tc) None]"
           "r = Inl (failed_to_send_metadata_change (fst (node_of e tc)) (snd (node_of e tc)))"
        by (elim exE conjE)
      have "x # rest = (x # pre) @ tc # post \<and> submits command (?ev # sub0) (x # pre) \<and>
            PQsendQuery e (tr @ (?ev # sub0)) (connection tc) command = 0 \<and>
            ?ev # sub = (?ev # sub0) @ [EvPQsendQuery (connection tc) command 0,
                          EvReportRemoteError (connection tc) None] \<and>
            r = Inl (failed_to_send_metadata_change (fst (node_of e tc)) (snd (node_of e tc)))"
        using d False by simp
      then have "\<exists>pre tc post sub0. x # rest = pre @ tc # post \<and> submits command sub0 pre \<and>
            PQsendQuery e (tr @ sub0) (connection tc) command = 0 \<and>
            ?ev # sub = sub0 @ [EvPQsendQuery (connection tc) command 0,
                          EvReportRemoteError (connection tc) None] \<and>
            r = Inl (failed_to_send_metadata_change (fst (node_of e tc)) (snd (node_of e tc)))"
        by (intro exI [of _ "x # pre"] exI [of _ tc] exI [of _ post] exI [of _ "?ev # sub0"])
      with a b show ?thesis by (intro exI [of _ "?ev # sub"] conjI disjI2)
    qed
  qed
qed

lemma InParallel_get_shape:
  "SendCommandToWorkersInParallel_get e cl tr = (r, tr') \<Longrightarrow>
   \<exists>dr. tr' = tr @ dr \<and> answered e tr dr \<and>
     ((r = Inr () \<and> drains dr cl)
      \<or> (\<exists>pre tc post dr0 res. cl = pre @ tc # post \<and> PQresultStatus res \<noteq> PGRES_COMMAND_OK \<and>
            drains dr0 pre \<and>
            res = PQgetResult e (tr @ dr0) (connection tc) \<and>
            dr = dr0 @ [EvPQgetResult (connection tc) res,
                        EvReportRemoteError (connection tc) res] \<and>
            r = Inl (failed_to_apply_metadata_change (fst (node_of e tc)) (snd (node_of e tc)))))"
proof (induction cl arbitrary: tr)
  case Nil
  then show ?case by simp
next
  case (Cons x rest)
  let ?res = "PQgetResult e tr (connection x)"
  let ?ev = "EvPQgetResult (connection x) ?res"
  let ?ev2 = "EvPQgetResult (connection x) (PQgetResult e (tr @ [?ev]) (connection x))"
  show ?case
  proof (cases "PQresultStatus ?res = PGRES_COMMAND_OK")
    case False
    let ?dr = "[?ev, EvReportRemoteError (connection x) ?res]"
    from Cons.prems False have
      a: "tr' = tr @ ?dr" and
      b: "r = Inl (failed_to_apply_metadata_change (fst (node_of e x)) (snd (node_of e x)))"
      by (simp_all add: Let_def node_of_def)
    have c: "answered e tr ?dr" by simp
    have "x # rest = [] @ x # rest \<and> PQresultStatus ?res \<noteq> PGRES_COMMAND_OK \<and>
          drains [] [] \<and> ?res = PQgetResult e (tr @ []) (connection x) \<and> ?dr = [] @ ?dr \<and>
          r = Inl (failed_to_apply_metadata_change (fst (node_of e x)) (snd (node_of e x)))"
      using b False by simp
    then have "\<exists>pre tc post dr0 res. x # rest = pre @ tc # post \<and>
            PQresultStatus res \<noteq> PGRES_COMMAND_OK \<and> drains dr0 pre \<and>
            res = PQgetResult e (tr @ dr0) (connection tc) \<and>
            ?dr = dr0 @ [EvPQgetResult (connection tc) res,
                         EvReportRemoteError (connection tc) res] \<and>
            r = Inl (failed_to_apply_metadata_change (fst (node_of e tc)) (snd (node_of e tc)))"
      by (intro exI [of _ "[]::TransactionConnection list"] exI [of _ x] exI [of _ rest]
            exI [of _ "[]::event list"] exI [of _ ?res])
    with a c show ?thesis by (intro exI [of _ ?dr] conjI disjI2)
  next
    case True
    then have ok: "?res = Some PGRES_COMMAND_OK" by (simp add: PQresultStatus_ok)
    from True Cons.prems have
      "SendCommandToWorkersInParallel_get e rest (tr @ [?ev, ?ev2]) = (r, tr')"
      by (simp add: Let_def)
    from Cons.IH [OF this] obtain dr where
      i: "tr' = (tr @ [?ev, ?ev2]) @ dr" "answered e (tr @ [?ev, ?ev2]) dr"
         "(r = Inr () \<and> drains dr rest)
          \<or> (\<exists>pre tc post dr0 res. rest = pre @ tc # post \<and>
            PQresultStatus res \<noteq> PGRES_COMMAND_OK \<and> drains dr0 pre \<and>
            res = PQgetResult e ((tr @ [?ev, ?ev2]) @ dr0) (connection tc) \<and>
            dr = dr0 @ [EvPQgetResult (connection tc) res,
                        EvReportRemoteError (connection tc) res] \<and>
            r = Inl (failed_to_apply_metadata_change (fst (node_of e tc)) (snd (node_of e tc))))"
      by (elim exE conjE)
    have a: "tr' = tr @ (?ev # ?ev2 # dr)" using i(1) by simp
    have b: "answered e tr (?ev # ?ev2 # dr)" using i(2) by simp
    from i(3) show ?thesis
    proof
      assume "r = Inr () \<and> drains dr rest"
      then have "r = Inr ()" "drains (?ev # ?ev2 # dr) (x # rest)"
        using ok by simp_all
      with a b show ?thesis by (intro exI [of _ "?ev # ?ev2 # dr"] conjI disjI1)
    next
      assume "\<exists>pre tc post dr0 res. rest = pre @ tc # post \<and>
            PQresultStatus res \<noteq> PGRES_COMMAND_OK \<and> drains dr0 pre \<and>
            res = PQgetResult e ((tr @ [?ev, ?ev2]) @ dr0) (connection tc) \<and>
            dr = dr0 @ [EvPQgetResult (connection tc) res,
                        EvReportRemoteError (connection tc) res] \<and>
            r = Inl (failed_to_apply_metadata_change (fst (node_of e tc)) (snd (node_of e tc)))"
      then obtain pre tc post dr0 res where
        d: "rest = pre @ tc # post" "PQresultStatus res \<noteq> PGRES_COMMAND_OK" "drains dr0 pre"
           "res = PQgetResult e ((tr @ [?ev, ?ev2]) @ dr0) (connection tc)"
           "dr = dr0 @ [EvPQgetResult (connection tc) res,
                        EvReportRemoteError (connection tc) res]"
           "r = Inl (failed_to_apply_metadata_change (fst (node_of e tc)) (snd (node_of e tc)))"
        by (elim exE conjE)
      have "x # rest = (x # pre) @ tc # post \<and> PQresultStatus res \<noteq> PGRES_COMMAND_OK \<and>
            drains (?ev # ?ev2 # dr0) (x # pre) \<and>
            res = PQgetResult e (tr @ (?ev # ?ev2 # dr0)) (connection tc) \<and>
            ?ev # ?ev2 # dr = (?ev # ?ev2 # dr0) @ [EvPQgetResult (connection tc) res,
                        EvReportRemoteError (connection tc) res] \<and>
            r = Inl (failed_to_apply_metadata_change (fst (node_of e tc)) (snd (node_of e tc)))"
        using d ok by simp
      then have "\<exists>pre tc post dr0 res. x # rest = pre @ tc # post \<and>
            PQresultStatus res \<noteq> PGRES_COMMAND_OK \<and> drains dr0 pre \<and>
            res = PQgetResult e (tr @ dr0) (connection tc) \<and>
            ?ev # ?ev2 # dr = dr0 @ [EvPQgetResult (connection tc) res,
                        EvReportRemoteError (connection tc) res] \<and>
            r = Inl (failed_to_apply_metadata_change (fst (node_of e tc)) (snd (node_of e tc)))"
        by (intro exI [of _ "x # pre"] exI [of _ tc] exI [of _ post]
              exI [of _ "?ev # ?ev2 # dr0"] exI [of _ res])
      with a b show ?thesis by (intro exI [of _ "?ev # ?ev2 # dr"] conjI disjI2)
    qed
  qed
qed

lemma projections_append:
  "drained (a @ b) = drained a @ drained b" "submitted (a @ b) = submitted a @ submitted b"
  by (simp_all add: drained_def submitted_def)

text \<open>
  C8. \<^verbatim>\<open>SendCommandToWorkersInParallel\<close>, once the handles \<open>cl\<close> are acquired, adds to the
  trace a submit part \<open>sub\<close>, in which no result is taken from any connection, followed by a
  drain part \<open>dr\<close>, in which nothing is submitted; every event of both carries the answer
  the environment gave to that call. Either the list splits at the first handle \<open>tc\<close> for
  which \<^verbatim>\<open>PQsendQuery\<close> answered 0: the handles before it were submitted to, in the order
  of the list and each with an answer other than 0, the failure on \<open>tc\<close> is reported, the
  call raises an error naming the node of \<open>tc\<close>, nothing is submitted to the handles after
  it, and the drain part is empty. Or the command was submitted to every handle, in the order
  of the list and each with an answer other than 0, and only then are results taken, in that
  same order, two per handle (the command's, a success, and the trailing one): until the list
  ends and the call returns, or until the first handle whose result is not a success, which
  is reported and raised with that handle's node.
\<close>

theorem SendCommandToWorkersInParallel_submits_then_drains:
  assumes "OpenWorkerTransactions e s = (Inr cl, s1)"
    and "SendCommandToWorkersInParallel e command s = (r, s2)"
  shows "\<exists>sub dr. s2 = s1\<lparr>trace := trace s1 @ sub @ dr\<rparr> \<and> answered e (trace s1) (sub @ dr) \<and>
    drained sub = [] \<and> submitted dr = [] \<and>
    ((\<exists>pre tc post sub0. cl = pre @ tc # post \<and> submits command sub0 pre \<and>
         PQsendQuery e (trace s1 @ sub0) (connection tc) command = 0 \<and>
         sub = sub0 @ [EvPQsendQuery (connection tc) command 0,
                       EvReportRemoteError (connection tc) None] \<and>
         r = Inl (failed_to_send_metadata_change (fst (node_of e tc)) (snd (node_of e tc))))
       \<and> dr = []
     \<or> submits command sub cl \<and>
         ((r = Inr () \<and> drains dr cl)
          \<or> (\<exists>pre tc post dr0 res. cl = pre @ tc # post \<and>
                PQresultStatus res \<noteq> PGRES_COMMAND_OK \<and> drains dr0 pre \<and>
                res = PQgetResult e (trace s1 @ sub @ dr0) (connection tc) \<and>
                dr = dr0 @ [EvPQgetResult (connection tc) res,
                            EvReportRemoteError (connection tc) res] \<and>
                r = Inl (failed_to_apply_metadata_change (fst (node_of e tc))
                           (snd (node_of e tc))))))"
proof -
  obtain r1 tr1 where s: "SendCommandToWorkersInParallel_send e command cl (trace s1) = (r1, tr1)"
    by (cases "SendCommandToWorkersInParallel_send e command cl (trace s1)") blast
  from InParallel_send_shape [OF s] obtain sub where
    u: "tr1 = trace s1 @ sub" "answered e (trace s1) sub"
       "(r1 = Inr () \<and> submits command sub cl)
        \<or> (\<exists>pre tc post sub0. cl = pre @ tc # post \<and> submits command sub0 pre \<and>
            PQsendQuery e (trace s1 @ sub0) (connection tc) command = 0 \<and>
            sub = sub0 @ [EvPQsendQuery (connection tc) command 0,
                          EvReportRemoteError (connection tc) None] \<and>
            r1 = Inl (failed_to_send_metadata_change (fst (node_of e tc)) (snd (node_of e tc))))"
    by (elim exE conjE)
  from u(3) show ?thesis
  proof
    assume ok: "r1 = Inr () \<and> submits command sub cl"
    then have sb: "submits command sub cl" by simp
    obtain r2 tr2 where g: "SendCommandToWorkersInParallel_get e cl tr1 = (r2, tr2)"
      by (cases "SendCommandToWorkersInParallel_get e cl tr1") blast
    from InParallel_get_shape [OF g] obtain dr where
      v: "tr2 = tr1 @ dr" "answered e tr1 dr"
         "(r2 = Inr () \<and> drains dr cl)
          \<or> (\<exists>pre tc post dr0 res. cl = pre @ tc # post \<and>
            PQresultStatus res \<noteq> PGRES_COMMAND_OK \<and> drains dr0 pre \<and>
            res = PQgetResult e (tr1 @ dr0) (connection tc) \<and>
            dr = dr0 @ [EvPQgetResult (connection tc) res,
                        EvReportRemoteError (connection tc) res] \<and>
            r2 = Inl (failed_to_apply_metadata_change (fst (node_of e tc)) (snd (node_of e tc))))"
      by (elim exE conjE)
    from assms s g ok have e: "r2 = r" and "s2 = s1\<lparr>trace := tr2\<rparr>"
      by (auto simp: SendCommandToWorkersInParallel_def)
    then have a: "s2 = s1\<lparr>trace := trace s1 @ sub @ dr\<rparr>" using u(1) v(1) by simp
    have b: "answered e (trace s1) (sub @ dr)"
      using u(1,2) v(2) by (simp add: answered_append)
    have c: "drained sub = []" using submits_projections [OF sb] by simp
    have d: "submitted dr = []"
      using v(3) drains_projections
      by (auto simp: projections_append submitted_def)
    note f = v(3) [unfolded e u(1) append_assoc]
    from sb f have "submits command sub cl \<and>
         ((r = Inr () \<and> drains dr cl)
          \<or> (\<exists>pre tc post dr0 res. cl = pre @ tc # post \<and>
                PQresultStatus res \<noteq> PGRES_COMMAND_OK \<and> drains dr0 pre \<and>
                res = PQgetResult e (trace s1 @ sub @ dr0) (connection tc) \<and>
                dr = dr0 @ [EvPQgetResult (connection tc) res,
                            EvReportRemoteError (connection tc) res] \<and>
                r = Inl (failed_to_apply_metadata_change (fst (node_of e tc))
                           (snd (node_of e tc)))))"
      by (rule conjI)
    then have "(\<exists>pre tc post sub0. cl = pre @ tc # post \<and> submits command sub0 pre \<and>
         PQsendQuery e (trace s1 @ sub0) (connection tc) command = 0 \<and>
         sub = sub0 @ [EvPQsendQuery (connection tc) command 0,
                       EvReportRemoteError (connection tc) None] \<and>
         r = Inl (failed_to_send_metadata_change (fst (node_of e tc)) (snd (node_of e tc))))
       \<and> dr = []
     \<or> submits command sub cl \<and>
         ((r = Inr () \<and> drains dr cl)
          \<or> (\<exists>pre tc post dr0 res. cl = pre @ tc # post \<and>
                PQresultStatus res \<noteq> PGRES_COMMAND_OK \<and> drains dr0 pre \<and>
                res = PQgetResult e (trace s1 @ sub @ dr0) (connection tc) \<and>
                dr = dr0 @ [EvPQgetResult (connection tc) res,
                            EvReportRemoteError (connection tc) res] \<and>
                r = Inl (failed_to_apply_metadata_change (fst (node_of e tc))
                           (snd (node_of e tc)))))"
      by (rule disjI2)
    with a b c d show ?thesis
      by (intro exI [of _ dr, THEN exI [of _ sub]] conjI)
  next
    assume f: "\<exists>pre tc post sub0. cl = pre @ tc # post \<and> submits command sub0 pre \<and>
            PQsendQuery e (trace s1 @ sub0) (connection tc) command = 0 \<and>
            sub = sub0 @ [EvPQsendQuery (connection tc) command 0,
                          EvReportRemoteError (connection tc) None] \<and>
            r1 = Inl (failed_to_send_metadata_change (fst (node_of e tc)) (snd (node_of e tc)))"
    then obtain err where "r1 = Inl err" by (elim exE conjE)
    with assms s have e: "r1 = r" and "s2 = s1\<lparr>trace := tr1\<rparr>"
      by (auto simp: SendCommandToWorkersInParallel_def)
    then have a: "s2 = s1\<lparr>trace := trace s1 @ sub @ []\<rparr>" using u(1) by simp
    have b: "answered e (trace s1) (sub @ [])" using u(2) by simp
    have c: "drained sub = []"
      using f submits_projections by (auto simp: projections_append drained_def)
    have d: "submitted [] = []" "([]::event list) = []" by (simp_all add: submitted_def)
    note g = f [unfolded e]
    from g d(2) have "(\<exists>pre tc post sub0. cl = pre @ tc # post \<and> submits command sub0 pre \<and>
         PQsendQuery e (trace s1 @ sub0) (connection tc) command = 0 \<and>
         sub = sub0 @ [EvPQsendQuery (connection tc) command 0,
                       EvReportRemoteError (connection tc) None] \<and>
         r = Inl (failed_to_send_metadata_change (fst (node_of e tc)) (snd (node_of e tc))))
       \<and> ([]::event list) = []"
      by (rule conjI)
    then have "(\<exists>pre tc post sub0. cl = pre @ tc # post \<and> submits command sub0 pre \<and>
         PQsendQuery e (trace s1 @ sub0) (connection tc) command = 0 \<and>
         sub = sub0 @ [EvPQsendQuery (connection tc) command 0,
                       EvReportRemoteError (connection tc) None] \<and>
         r = Inl (failed_to_send_metadata_change (fst (node_of e tc)) (snd (node_of e tc))))
       \<and> ([]::event list) = []
     \<or> submits command sub cl \<and>
         ((r = Inr () \<and> drains [] cl)
          \<or> (\<exists>pre tc post dr0 res. cl = pre @ tc # post \<and>
                PQresultStatus res \<noteq> PGRES_COMMAND_OK \<and> drains dr0 pre \<and>
                res = PQgetResult e (trace s1 @ sub @ dr0) (connection tc) \<and>
                [] = dr0 @ [EvPQgetResult (connection tc) res,
                            EvReportRemoteError (connection tc) res] \<and>
                r = Inl (failed_to_apply_metadata_change (fst (node_of e tc))
                           (snd (node_of e tc)))))"
      by (rule disjI1)
    with a b c d(1) show ?thesis
      by (intro exI [of _ "[]", THEN exI [of _ sub]] conjI)
  qed
qed

text \<open>
  Three workers, the submission fails on the second: the third gets nothing and no result is
  taken. And two workers where every submission and every result is a success.
\<close>

theorem SendCommandToWorkersInParallel_submits_then_drains_witness:
  "fst (OpenWorkerTransactions (cluster_send_fails [5432, 5433, 5434] 5433) initial_state)
     = Inr (map handle [5432, 5433, 5434])
   \<and> fst (SendCommandToWorkersInParallel (cluster_send_fails [5432, 5433, 5434] 5433)
            ''CREATE TABLE t'' initial_state)
       = Inl (failed_to_send_metadata_change ''localhost'' ''5433'')
   \<and> filter wire_event
        (trace (snd (SendCommandToWorkersInParallel (cluster_send_fails [5432, 5433, 5434] 5433)
                       ''CREATE TABLE t'' initial_state)))
       = opened (worker 5432, handle 5432) @ opened (worker 5433, handle 5433) @
         opened (worker 5434, handle 5434) @
         [EvPQsendQuery 5432 ''CREATE TABLE t'' 1, EvPQsendQuery 5433 ''CREATE TABLE t'' 0,
          EvReportRemoteError 5433 None]
   \<and> fst (SendCommandToWorkersInParallel (cluster [5432, 5433]) ''CREATE TABLE t''
            initial_state) = Inr ()
   \<and> filter wire_event
        (trace (snd (SendCommandToWorkersInParallel (cluster [5432, 5433]) ''CREATE TABLE t''
                       initial_state)))
       = opened (worker 5432, handle 5432) @ opened (worker 5433, handle 5433) @
         [EvPQsendQuery 5432 ''CREATE TABLE t'' 1, EvPQsendQuery 5433 ''CREATE TABLE t'' 1,
          EvPQgetResult 5432 (Some PGRES_COMMAND_OK), EvPQgetResult 5432 None,
          EvPQgetResult 5433 (Some PGRES_COMMAND_OK), EvPQgetResult 5433 None]"
proof -
  let ?f = "cluster_send_fails [5432, 5433, 5434] 5433"
  let ?e = "cluster [5432, 5433]"
  have f0: "fst (OpenWorkerTransactions ?f initial_state) = Inr (map handle [5432, 5433, 5434])"
    by (simp add: OpenWorkerTransactions_def cluster_send_fails_def cluster_def
          initial_state_def worker_def handle_def Let_def)
  then have f1: "OpenWorkerTransactions ?f initial_state =
                   (Inr (map handle [5432, 5433, 5434]),
                    snd (OpenWorkerTransactions ?f initial_state))"
    by (simp add: prod_eq_iff)
  have f2: "fst (SendCommandToWorkersInParallel ?f ''CREATE TABLE t'' initial_state)
              = Inl (failed_to_send_metadata_change ''localhost'' ''5433'')"
    by (simp add: SendCommandToWorkersInParallel_def OpenWorkerTransactions_def
          cluster_send_fails_def cluster_def initial_state_def worker_def Let_def)
  then have f3: "SendCommandToWorkersInParallel ?f ''CREATE TABLE t'' initial_state =
                   (Inl (failed_to_send_metadata_change ''localhost'' ''5433''),
                    snd (SendCommandToWorkersInParallel ?f ''CREATE TABLE t'' initial_state))"
    by (simp add: prod_eq_iff)
  have f4: "filter wire_event
        (trace (snd (SendCommandToWorkersInParallel ?f ''CREATE TABLE t'' initial_state)))
       = opened (worker 5432, handle 5432) @ opened (worker 5433, handle 5433) @
         opened (worker 5434, handle 5434) @
         [EvPQsendQuery 5432 ''CREATE TABLE t'' 1, EvPQsendQuery 5433 ''CREATE TABLE t'' 0,
          EvReportRemoteError 5433 None]"
    by (simp add: SendCommandToWorkersInParallel_def OpenWorkerTransactions_def
          cluster_send_fails_def cluster_def initial_state_def worker_def handle_def
          opened_def Let_def)
  have h0: "fst (OpenWorkerTransactions ?e initial_state) = Inr (map handle [5432, 5433])"
    by (simp add: OpenWorkerTransactions_def cluster_def initial_state_def worker_def
          handle_def Let_def)
  then have h1: "OpenWorkerTransactions ?e initial_state =
                   (Inr (map handle [5432, 5433]), snd (OpenWorkerTransactions ?e initial_state))"
    by (simp add: prod_eq_iff)
  have g0: "fst (SendCommandToWorkersInParallel ?e ''CREATE TABLE t'' initial_state) = Inr ()"
    by (simp add: SendCommandToWorkersInParallel_def OpenWorkerTransactions_def cluster_def
          initial_state_def worker_def drained_def Let_def)
  then have h2: "SendCommandToWorkersInParallel ?e ''CREATE TABLE t'' initial_state =
                   (Inr (), snd (SendCommandToWorkersInParallel ?e ''CREATE TABLE t'' initial_state))"
    by (simp add: prod_eq_iff)
  have t: "filter wire_event
        (trace (snd (SendCommandToWorkersInParallel ?e ''CREATE TABLE t'' initial_state)))
       = opened (worker 5432, handle 5432) @ opened (worker 5433, handle 5433) @
         [EvPQsendQuery 5432 ''CREATE TABLE t'' 1, EvPQsendQuery 5433 ''CREATE TABLE t'' 1,
          EvPQgetResult 5432 (Some PGRES_COMMAND_OK), EvPQgetResult 5432 None,
          EvPQgetResult 5433 (Some PGRES_COMMAND_OK), EvPQgetResult 5433 None]"
    by (simp add: SendCommandToWorkersInParallel_def OpenWorkerTransactions_def cluster_def
          initial_state_def worker_def handle_def opened_def drained_def Let_def)
  show ?thesis
    using SendCommandToWorkersInParallel_submits_then_drains [OF f1 f3]
      SendCommandToWorkersInParallel_submits_then_drains [OF h1 h2] f0 f2 f4 g0 t
    by blast
qed

end
